theory Spec2Isabelle
  imports Complex_Main "HOL-Library.List_Lexorder" "HOL-Library.Char_ord"
begin

section \<open>Python strings\<close>

text \<open>
  A Python \<open>str\<close> is modelled as a \<open>string\<close> whose characters are read as the code
  points 0 to 255 (Latin-1). On this range the character classes and the case map below
  are those of Python 3: \<open>str.isspace\<close> (also the regular expression class \<open>\s\<close>),
  the class \<open>\d\<close>, \<open>str.isalnum\<close> and \<open>str.lower\<close>.
\<close>

definition isspace :: "char \<Rightarrow> bool" where
  "isspace c = (let n = (of_char c :: nat) in
     (9 \<le> n \<and> n \<le> 13) \<or> (28 \<le> n \<and> n \<le> 32) \<or> n = 133 \<or> n = 160)"

definition isdigit :: "char \<Rightarrow> bool" where
  "isdigit c = (let n = (of_char c :: nat) in 48 \<le> n \<and> n \<le> 57)"

definition isupper :: "char \<Rightarrow> bool" where
  "isupper c = (let n = (of_char c :: nat) in
     (65 \<le> n \<and> n \<le> 90) \<or> (192 \<le> n \<and> n \<le> 214) \<or> (216 \<le> n \<and> n \<le> 222))"

definition isalnum :: "char \<Rightarrow> bool" where
  "isalnum c = (let n = (of_char c :: nat) in
     (48 \<le> n \<and> n \<le> 57) \<or> (65 \<le> n \<and> n \<le> 90) \<or> (97 \<le> n \<and> n \<le> 122) \<or>
     n = 170 \<or> n = 178 \<or> n = 179 \<or> n = 181 \<or> n = 185 \<or> n = 186 \<or>
     (188 \<le> n \<and> n \<le> 190) \<or> (192 \<le> n \<and> n \<le> 214) \<or> (216 \<le> n \<and> n \<le> 246) \<or>
     (248 \<le> n \<and> n \<le> 255))"

definition lower_char :: "char \<Rightarrow> char" where
  "lower_char c = (if isupper c then char_of ((of_char c :: nat) + 32) else c)"

definition lower :: "string \<Rightarrow> string" where
  "lower s = map lower_char s"

text \<open>\<open>s.strip()\<close>: whitespace removed at both ends.\<close>

definition strip :: "string \<Rightarrow> string" where
  "strip s = rev (dropWhile isspace (rev (dropWhile isspace s)))"

text \<open>\<open>s.startswith(p)\<close>.\<close>

definition startswith :: "string \<Rightarrow> string \<Rightarrow> bool" where
  "startswith s p = (take (length p) s = p)"

text \<open>\<open>sub in s\<close>: \<open>sub\<close> occurs in \<open>s\<close> as a contiguous substring.\<close>

fun contains :: "string \<Rightarrow> string \<Rightarrow> bool" where
  "contains [] sub = (sub = [])"
| "contains (c # cs) sub = (startswith (c # cs) sub \<or> contains cs sub)"

text \<open>
  \<open>s.replace(old, new)\<close> for a non-empty \<open>old\<close>: the occurrences of \<open>old\<close> are
  replaced from left to right, without overlap. Every call in the source has a literal,
  non-empty \<open>old\<close>.
\<close>

fun replace :: "string \<Rightarrow> string \<Rightarrow> string \<Rightarrow> string" where
  "replace [] old new = []"
| "replace (c # cs) old new =
     (if old \<noteq> [] \<and> startswith (c # cs) old
      then new @ replace (drop (length old - 1) cs) old new
      else c # replace cs old new)"

text \<open>
  \<open>s.split(sep)\<close> for a non-empty separator: the pieces between the occurrences of
  \<open>sep\<close>, empty pieces kept. \<open>acc\<close> holds the current piece, reversed.
\<close>

fun split_acc :: "string \<Rightarrow> string \<Rightarrow> string \<Rightarrow> string list" where
  "split_acc sep acc [] = [rev acc]"
| "split_acc sep acc (c # cs) =
     (if sep \<noteq> [] \<and> startswith (c # cs) sep
      then rev acc # split_acc sep [] (drop (length sep - 1) cs)
      else split_acc sep (c # acc) cs)"

definition split :: "string \<Rightarrow> string \<Rightarrow> string list" where
  "split s sep = split_acc sep [] s"

text \<open>\<open>s.split()\<close> without a separator: the maximal runs of non-whitespace.\<close>

fun words_acc :: "string \<Rightarrow> string \<Rightarrow> string list" where
  "words_acc acc [] = (if acc = [] then [] else [rev acc])"
| "words_acc acc (c # cs) =
     (if isspace c then (if acc = [] then words_acc [] cs else rev acc # words_acc [] cs)
      else words_acc (c # acc) cs)"

definition split_ws :: "string \<Rightarrow> string list" where
  "split_ws s = words_acc [] s"

text \<open>\<open>sep.join(xs)\<close>.\<close>

fun join :: "string \<Rightarrow> string list \<Rightarrow> string" where
  "join sep [] = []"
| "join sep [x] = x"
| "join sep (x # y # ys) = x @ sep @ join sep (y # ys)"

section \<open>Regular expressions of the parser\<close>

text \<open>
  Each pattern the parser passes to \<open>re.search\<close> is modelled by a function that
  returns what \<open>group(0)\<close> or \<open>group(1)\<close> of the leftmost match would be. With
  \<open>re.IGNORECASE\<close> a pattern letter matches a character whose lower case it is.
\<close>

text \<open>\<open>\$(\d+\.?\d*)\<close>: group 1 of the leftmost match.\<close>

definition price_group :: "string \<Rightarrow> string" where
  "price_group s =
     (let ds = takeWhile isdigit s; r = dropWhile isdigit s
      in case r of
           [] \<Rightarrow> ds
         | d # r' \<Rightarrow> if d = CHR ''.'' then ds @ [d] @ takeWhile isdigit r' else ds)"

fun search_price :: "string \<Rightarrow> string option" where
  "search_price [] = None"
| "search_price (c # cs) =
     (if c = CHR ''$'' \<and> (case cs of [] \<Rightarrow> False | d # _ \<Rightarrow> isdigit d)
      then Some (price_group cs) else search_price cs)"

text \<open>\<open>https?://\<close> at the head of \<open>s\<close>: the matched text and the rest.\<close>

definition match_scheme :: "bool \<Rightarrow> string \<Rightarrow> (string \<times> string) option" where
  "match_scheme ignorecase s =
     (let f = (if ignorecase then lower else id)
      in if f (take 8 s) = ''https://'' then Some (take 8 s, drop 8 s)
         else if f (take 7 s) = ''http://'' then Some (take 7 s, drop 7 s)
         else None)"

definition image_exts :: "string list" where
  "image_exts = [''jpg'', ''jpeg'', ''png'', ''gif'', ''webp'', ''svg'']"

text \<open>\<open>\.(?:jpg|jpeg|png|gif|webp|svg)\<close> at the head of \<open>s\<close>, ignoring case.\<close>

definition match_ext :: "string \<Rightarrow> string option" where
  "match_ext s =
     (case filter (\<lambda>e. lower (take (Suc (length e)) s) = CHR ''.'' # e) image_exts of
        [] \<Rightarrow> None
      | e # _ \<Rightarrow> Some (take (Suc (length e)) s))"

text \<open>
  \<open>https?://[^\s]+\.(?:jpg|jpeg|png|gif|webp|svg)\<close> with \<open>re.IGNORECASE\<close>, at the
  head of \<open>s\<close>. The greedy \<open>[^\s]+\<close> first takes the whole run of non-whitespace and
  gives characters back until an extension follows: the match ends at the last
  extension of the run, after at least one character.
\<close>

definition match_image_at :: "string \<Rightarrow> string option" where
  "match_image_at s =
     (case match_scheme True s of
        None \<Rightarrow> None
      | Some (m, rest) \<Rightarrow>
          (let run = takeWhile (\<lambda>c. \<not> isspace c) rest
           in case List.map_filter
                     (\<lambda>k. map_option (\<lambda>e. m @ take k run @ e) (match_ext (drop k run)))
                     (rev [1..<Suc (length run)]) of
                [] \<Rightarrow> None
              | u # _ \<Rightarrow> Some u))"

fun search_image :: "string \<Rightarrow> string option" where
  "search_image [] = None"
| "search_image (c # cs) =
     (case match_image_at (c # cs) of Some u \<Rightarrow> Some u | None \<Rightarrow> search_image cs)"

text \<open>\<open>https?://[^\s]+\<close>, case-sensitive: group 0 of the leftmost match.\<close>

definition match_url_at :: "string \<Rightarrow> string option" where
  "match_url_at s =
     (case match_scheme False s of
        None \<Rightarrow> None
      | Some (m, rest) \<Rightarrow>
          (let run = takeWhile (\<lambda>c. \<not> isspace c) rest
           in if run = [] then None else Some (m @ run)))"

fun search_url :: "string \<Rightarrow> string option" where
  "search_url [] = None"
| "search_url (c # cs) =
     (case match_url_at (c # cs) of Some u \<Rightarrow> Some u | None \<Rightarrow> search_url cs)"

definition size_units :: "string list" where
  "size_units = [''oz'', ''ounce'', ''gallon'', ''pack'', ''count'', ''fl oz'', ''ml'', ''l'']"

text \<open>
  \<open>(\d+\s*(?:oz|ounce|gallon|pack|count|fl oz|ml|l))\<close> with \<open>re.IGNORECASE\<close>, at the
  head of \<open>s\<close>. No unit starts with a digit or a whitespace character, so a match takes
  the whole run of digits and the whole run of whitespace after it, then the first unit
  of the alternation that follows.
\<close>

definition match_size_at :: "string \<Rightarrow> string option" where
  "match_size_at s =
     (let ds = takeWhile isdigit s; r = dropWhile isdigit s;
          ws = takeWhile isspace r; r' = dropWhile isspace r
      in if ds = [] then None
         else case filter (\<lambda>u. lower (take (length u) r') = u) size_units of
                [] \<Rightarrow> None
              | u # _ \<Rightarrow> Some (ds @ ws @ take (length u) r'))"

fun search_size :: "string \<Rightarrow> string option" where
  "search_size [] = None"
| "search_size (c # cs) =
     (case match_size_at (c # cs) of Some u \<Rightarrow> Some u | None \<Rightarrow> search_size cs)"

text \<open>\<open>any(k in line.lower() for k in keywords)\<close>.\<close>

definition any_keyword :: "string list \<Rightarrow> string \<Rightarrow> bool" where
  "any_keyword keywords line = list_ex (\<lambda>k. contains (lower line) k) keywords"

section \<open>Product parsing (\<open>SonarClient._parse_product_response\<close>)\<close>

text \<open>
  An exception of the source is a value; \<open>Inl\<close> of a sum is a raise.
\<close>

datatype exn = Exception string

text \<open>
  A price is the number \<open>float(m.group(1))\<close> or the text of the field. The number is
  the value of the decimal literal, a rational, so that two literals of one value such as
  \<open>4.50\<close> and \<open>4.5\<close> give one price; the rounding of \<open>float\<close> to a double is not
  modelled. \<open>float\<close> is modelled on the literals the price pattern can match, digits
  with an optional point and more digits, and raises on every other argument.
\<close>

datatype price = PriceNumber rat | PriceText string

definition digits_value :: "string \<Rightarrow> nat" where
  "digits_value ds = foldl (\<lambda>n c. 10 * n + ((of_char c :: nat) - 48)) 0 ds"

definition py_float :: "string \<Rightarrow> exn + price" where
  "py_float s =
     (let ds = takeWhile isdigit s; r = dropWhile isdigit s
      in if ds \<noteq> [] \<and> (r = [] \<or> (take 1 r = ''.'' \<and> list_all isdigit (drop 1 r)))
         then Inr (PriceNumber (of_nat (digits_value ds) +
                     of_nat (digits_value (drop 1 r)) / 10 ^ length (drop 1 r)))
         else Inl (Exception ''ValueError''))"

text \<open>
  A product is a Python dict; an absent key is \<open>None\<close>. \<open>product_url\<close> is the key
  that later stages add; the parser never sets it.
\<close>

record product =
  p_name :: "string option"
  p_brand :: "string option"
  p_price :: "price option"
  p_size :: "string option"
  p_category :: "string option"
  p_availability :: "string option"
  p_description :: "string option"
  p_image_url :: "string option"
  p_deals :: "string option"
  p_product_url :: "string option"

definition empty_product :: product where
  "empty_product = \<lparr>p_name = None, p_brand = None, p_price = None, p_size = None,
     p_category = None, p_availability = None, p_description = None, p_image_url = None,
     p_deals = None, p_product_url = None\<rparr>"

text \<open>\<open>line.replace(KEY, '').strip()\<close>.\<close>

definition field_value :: "string \<Rightarrow> string \<Rightarrow> string" where
  "field_value line key = strip (replace line key [])"

text \<open>
  One iteration of the loop over the lines of a section, on the dict \<open>cur\<close>. The tests
  are in the order of the source; each \<open>continue\<close> ends the iteration.
\<close>

definition product_line :: "product \<Rightarrow> string \<Rightarrow> exn + product" where
  "product_line cur raw =
     (let line = strip raw in
      if line = [] then Inr cur
      else if startswith line ''PRODUCT:'' then
        (let product_name = field_value line ''PRODUCT:'' in
         Inr (if product_name \<noteq> [] \<and> product_name \<noteq> ''[Product Name]''
              then cur\<lparr>p_name := Some product_name\<rparr> else cur))
      else if startswith line ''BRAND:'' then
        (let brand = field_value line ''BRAND:'' in
         Inr (if brand \<noteq> [] \<and> brand \<noteq> ''[Brand Name]''
              then cur\<lparr>p_brand := Some brand\<rparr> else cur))
      else if startswith line ''PRICE:'' then
        (let price_text = field_value line ''PRICE:'' in
         if price_text \<noteq> [] \<and>
            price_text \<noteq> ''[Price with $ symbol, or \"Price not available\"]''
         then (case search_price price_text of
                 Some g \<Rightarrow> (case py_float g of
                              Inl e \<Rightarrow> Inl e
                            | Inr v \<Rightarrow> Inr (cur\<lparr>p_price := Some v\<rparr>))
               | None \<Rightarrow> Inr (cur\<lparr>p_price := Some (PriceText price_text)\<rparr>))
         else Inr cur)
      else if startswith line ''SIZE:'' then
        (let sz = field_value line ''SIZE:'' in
         Inr (if sz \<noteq> [] \<and>
                 sz \<noteq> ''[Size/quantity, e.g., \"32 oz\", \"1 gallon\", \"12 pack\"]''
              then cur\<lparr>p_size := Some sz\<rparr> else cur))
      else if startswith line ''CATEGORY:'' then
        (let category = field_value line ''CATEGORY:'' in
         Inr (if category \<noteq> [] \<and>
                 category \<noteq> ''[Product category, e.g., \"Dairy\", \"Beverages\", \"Organic\"]''
              then cur\<lparr>p_category := Some category\<rparr> else cur))
      else if startswith line ''AVAILABILITY:'' then
        (let availability = field_value line ''AVAILABILITY:'' in
         Inr (if availability \<noteq> [] \<and> availability \<noteq> ''[in stock/out of stock/limited]''
              then cur\<lparr>p_availability := Some availability\<rparr> else cur))
      else if startswith line ''DESCRIPTION:'' then
        (let description = field_value line ''DESCRIPTION:'' in
         Inr (if description \<noteq> [] \<and> description \<noteq> ''[Brief product description]''
              then cur\<lparr>p_description := Some description\<rparr> else cur))
      else if startswith line ''IMAGE_URL:'' then
        (let image_url = field_value line ''IMAGE_URL:'' in
         Inr (if image_url \<noteq> [] \<and>
                 image_url \<noteq> ''[Product image URL if available, or \"N/A\"]'' \<and>
                 image_url \<noteq> ''N/A''
              then cur\<lparr>p_image_url := Some image_url\<rparr> else cur))
      else
        (case (search_image line, p_image_url cur) of
           (Some u, None) \<Rightarrow> Inr (cur\<lparr>p_image_url := Some u\<rparr>)
         | _ \<Rightarrow>
             if startswith line ''DEALS:'' then
               (let deals = field_value line ''DEALS:'' in
                Inr (if deals \<noteq> [] \<and> deals \<noteq> ''[Any current deals, discounts, or \"None\"]''
                     then cur\<lparr>p_deals := Some deals\<rparr> else cur))
             else Inr cur))"

text \<open>The loop over the lines of one section, from the dict \<open>cur\<close>.\<close>

fun product_lines :: "product \<Rightarrow> string list \<Rightarrow> exn + product" where
  "product_lines cur [] = Inr cur"
| "product_lines cur (l # ls) =
     (case product_line cur l of Inl e \<Rightarrow> Inl e | Inr cur' \<Rightarrow> product_lines cur' ls)"

text \<open>
  The loop over the sections. \<open>products\<close> is the list the source appends to; when a
  line raises, the list as it is then comes back with the exception.
\<close>

fun product_sections :: "product list \<Rightarrow> string list \<Rightarrow> product list \<times> exn option" where
  "product_sections products [] = (products, None)"
| "product_sections products (section # sections) =
     (case product_lines empty_product (split (strip section) ''\<newline>'') of
        Inl e \<Rightarrow> (products, Some e)
      | Inr cur \<Rightarrow>
          product_sections (if p_name cur \<noteq> None then products @ [cur] else products)
            sections)"

text \<open>
  \<open>_parse_products_by_patterns\<close>: one iteration of its loop, on the list \<open>products\<close>
  and the dict \<open>cur\<close>.
\<close>

definition pattern_line ::
  "product list \<times> product \<Rightarrow> string \<Rightarrow> exn + product list \<times> product" where
  "pattern_line st raw =
     (let products = fst st; cur = snd st; line = strip raw in
      if line = [] then
        (if p_name cur \<noteq> None then Inr (products @ [cur], empty_product) else Inr st)
      else if any_keyword [''oatly'', ''chobani'', ''silk'', ''almond'', ''soy'', ''milk''] line then
        (if p_name cur = None \<or> p_name cur = Some []
         then Inr (products, cur\<lparr>p_name := Some line\<rparr>) else Inr st)
      else case search_price line of
        Some g \<Rightarrow> (case py_float g of
                     Inl e \<Rightarrow> Inl e
                   | Inr v \<Rightarrow> Inr (products, cur\<lparr>p_price := Some v\<rparr>))
      | None \<Rightarrow>
        if any_keyword [''in stock'', ''available'', ''out of stock'', ''unavailable'', ''limited'']
             line
        then Inr (products, cur\<lparr>p_availability := Some line\<rparr>)
        else if any_keyword [''discount'', ''sale'', ''off'', ''deal'', ''promotion''] line
        then Inr (products, cur\<lparr>p_deals := Some line\<rparr>)
        else case search_size line of
          Some g \<Rightarrow> Inr (products, cur\<lparr>p_size := Some g\<rparr>)
        | None \<Rightarrow>
          (case search_image line of
             Some u \<Rightarrow> Inr (products, cur\<lparr>p_image_url := Some u\<rparr>)
           | None \<Rightarrow>
             (case (search_url line, p_image_url cur) of
                (Some url, None) \<Rightarrow>
                  if any_keyword [''target.com'', ''walmart.com'', ''amazon.com'', ''kroger.com'']
                       url
                  then Inr (products, cur\<lparr>p_image_url := Some url\<rparr>) else Inr st
              | _ \<Rightarrow> Inr st)))"

fun pattern_lines ::
  "product list \<times> product \<Rightarrow> string list \<Rightarrow> (product list \<times> product) \<times> exn option" where
  "pattern_lines st [] = (st, None)"
| "pattern_lines st (l # ls) =
     (case pattern_line st l of Inl e \<Rightarrow> (st, Some e) | Inr st' \<Rightarrow> pattern_lines st' ls)"

text \<open>
  \<open>_parse_products_by_patterns\<close>. Its \<open>except Exception\<close> logs and falls through to
  \<open>return products\<close>, without the last product.
\<close>

definition parse_products_by_patterns :: "string \<Rightarrow> exn + product list" where
  "parse_products_by_patterns response =
     (case pattern_lines ([], empty_product) (split response ''\<newline>'') of
        ((products, cur), Some e) \<Rightarrow> Inr products
      | ((products, cur), None) \<Rightarrow>
          Inr (if p_name cur \<noteq> None then products @ [cur] else products))"

text \<open>
  \<open>_parse_product_response\<close>. An exception in the body is caught, logged and followed
  by \<open>return products\<close>: the structured products found so far.
\<close>

definition parse_product_response :: "string \<Rightarrow> exn + product list" where
  "parse_product_response response =
     (if contains (lower response) ''no products found'' then Inr []
      else case product_sections [] (split response ''\<newline>\<newline>'') of
             (products, Some e) \<Rightarrow> Inr products
           | (products, None) \<Rightarrow>
               if products = []
               then (case parse_products_by_patterns response of
                       Inl e \<Rightarrow> Inr products
                     | Inr found \<Rightarrow> Inr found)
               else Inr products)"

section \<open>Store parsing (\<open>SonarClient._parse_store_response\<close>)\<close>

text \<open>
  \<open>StoreLocation\<close> (scraper/models.py) is a pydantic model. The fields the parser
  writes are kept; \<open>distance_miles\<close>, \<open>city\<close>, \<open>state\<close>, \<open>phone\<close> and \<open>hours\<close>
  stay at their default \<open>None\<close>. The model declares no field \<open>website\<close>, and
  assigning an undeclared attribute of a pydantic model raises \<open>ValueError\<close>.
\<close>

record store_location =
  s_store_id :: string
  s_store_name :: string
  s_address :: "string option"
  s_zipcode :: "string option"
  s_services :: "string list option"
  s_status :: string

text \<open>\<open>_create_store_id\<close>.\<close>

definition create_store_id :: "string \<Rightarrow> string" where
  "create_store_id store_name =
     (let clean_name = lower store_name;
          clean_name = replace (replace (replace (replace clean_name '' '' ''_'') ''-'' ''_'')
                         [CHR 0x27] []) ''&'' ''and'';
          clean_name = filter (\<lambda>c. isalnum c \<or> c = CHR ''_'') clean_name
      in join ''_'' (filter (\<lambda>w. w \<noteq> []) (split clean_name ''_'')))"

text \<open>\<open>_parse_services_from_text\<close>.\<close>

definition parse_services_from_text :: "string \<Rightarrow> string list" where
  "parse_services_from_text services_text =
     (if services_text = [] then []
      else filter (\<lambda>service. service \<in> set [''delivery'', ''pickup'', ''curbside'', ''in-store'', ''online''])
             (map (\<lambda>service. lower (strip service)) (split services_text '','')))"

text \<open>\<open>_extract_stores_by_patterns\<close>: the names of the catalogue that occur in the text.\<close>

definition store_names :: "string list" where
  "store_names = [''Giant Eagle'', ''Wegmans'', ''ALDI'', ''Albertsons'', ''ShopRite'',
     ''Walmart'', ''Target'', ''Kroger'', ''Safeway'', ''Publix'', ''Whole Foods'',
     ''Trader Joe'' @ [CHR 0x27] @ ''s'', ''Sprouts'', ''Food Lion'', ''Meijer'', ''Hy-Vee'',
     ''Stop & Shop'', ''Giant'', ''Shoppers'', ''Harris Teeter'']"

definition new_store :: "string \<Rightarrow> string \<Rightarrow> string \<Rightarrow> store_location" where
  "new_store store_id store_name zipcode =
     \<lparr>s_store_id = store_id, s_store_name = store_name, s_address = None,
      s_zipcode = Some zipcode, s_services = None, s_status = ''active''\<rparr>"

definition extract_stores_by_patterns :: "string \<Rightarrow> string \<Rightarrow> store_location list" where
  "extract_stores_by_patterns text zipcode =
     map (\<lambda>store_name.
            new_store (replace (replace (replace (lower store_name) '' '' []) [CHR 0x27] []) ''-'' [])
              store_name zipcode)
       (filter (\<lambda>store_name. contains (lower text) (lower store_name)) store_names)"

text \<open>
  One iteration of the loop over the lines of a section in
  \<open>_extract_structured_stores\<close>, on the list \<open>stores\<close> and \<open>current_store\<close>.
  Every test after \<open>STORE:\<close> also requires a current store, so without one the line
  changes nothing.
\<close>

definition store_line ::
  "string \<Rightarrow> store_location list \<times> store_location option \<Rightarrow> string \<Rightarrow>
     exn + store_location list \<times> store_location option" where
  "store_line zipcode st raw =
     (let stores = fst st; current_store = snd st; line = strip raw in
      if line = [] then Inr st
      else if startswith line ''STORE:'' then
        (let store_name = field_value line ''STORE:'' in
         if store_name \<noteq> [] \<and> store_name \<noteq> ''[Store Name]''
         then Inr (case current_store of None \<Rightarrow> stores | Some cs \<Rightarrow> stores @ [cs],
                   Some (new_store (create_store_id store_name) store_name zipcode))
         else Inr st)
      else case current_store of
        None \<Rightarrow> Inr st
      | Some cs \<Rightarrow>
        if startswith line ''ADDRESS:'' then
          (let address = field_value line ''ADDRESS:'' in
           Inr (if address \<noteq> [] \<and>
                   address \<noteq> ''[Complete street address with city, state, zip]'' \<and>
                   \<not> startswith address ''-''
                then (stores, Some (cs\<lparr>s_address := Some address\<rparr>)) else st))
        else if startswith line ''SERVICES:'' then
          (let services_text = field_value line ''SERVICES:'' in
           Inr (if services_text \<noteq> [] \<and>
                   services_text \<noteq> ''[comma-separated list: delivery, pickup, curbside, in-store]'' \<and>
                   parse_services_from_text services_text \<noteq> []
                then (stores, Some (cs\<lparr>s_services := Some (parse_services_from_text services_text)\<rparr>))
                else st))
        else if startswith line ''WEBSITE:'' then
          (let website = field_value line ''WEBSITE:'' in
           if website \<noteq> [] \<and> website \<noteq> ''[full URL if available, or \"N/A\"]'' \<and>
              website \<noteq> ''N/A''
           then Inl (Exception ''ValueError'') else Inr st)
        else if startswith line ''STATUS:'' then
          (let status = field_value line ''STATUS:'' in
           Inr (if status \<noteq> [] \<and> status \<noteq> ''[open/closed/temporarily closed]''
                then (stores, Some (cs\<lparr>s_status := status\<rparr>)) else st))
        else Inr st)"

fun store_lines ::
  "string \<Rightarrow> store_location list \<times> store_location option \<Rightarrow> string list \<Rightarrow>
     exn + store_location list \<times> store_location option" where
  "store_lines zipcode st [] = Inr st"
| "store_lines zipcode st (l # ls) =
     (case store_line zipcode st l of Inl e \<Rightarrow> Inl e | Inr st' \<Rightarrow> store_lines zipcode st' ls)"

fun store_sections :: "string \<Rightarrow> store_location list \<Rightarrow> string list \<Rightarrow> exn + store_location list" where
  "store_sections zipcode stores [] = Inr stores"
| "store_sections zipcode stores (section # sections) =
     (case store_lines zipcode (stores, None) (split (strip section) ''\<newline>'') of
        Inl e \<Rightarrow> Inl e
      | Inr (stores', None) \<Rightarrow> store_sections zipcode stores' sections
      | Inr (stores', Some cs) \<Rightarrow> store_sections zipcode (stores' @ [cs]) sections)"

definition extract_structured_stores :: "string \<Rightarrow> string \<Rightarrow> exn + store_location list" where
  "extract_structured_stores response zipcode =
     (case store_sections zipcode [] (split response ''\<newline>\<newline>'') of
        Inl e \<Rightarrow> Inl e
      | Inr stores \<Rightarrow>
          Inr (if stores = [] then extract_stores_by_patterns response zipcode else stores))"

text \<open>
  The dict \<open>unique_stores\<close>, in insertion order: a store is added when its id is not a
  key yet.
\<close>

fun unique_stores :: "(string \<times> store_location) list \<Rightarrow> store_location list \<Rightarrow>
    (string \<times> store_location) list" where
  "unique_stores d [] = d"
| "unique_stores d (store # stores) =
     unique_stores (if map_of d (s_store_id store) = None then d @ [(s_store_id store, store)] else d)
       stores"

text \<open>
  \<open>_parse_store_response\<close>. The only statement of the body that raises is the call
  of \<open>_extract_structured_stores\<close>; \<open>stores\<close> is still the empty list then, and the
  handler logs and returns it.
\<close>

definition parse_store_response :: "string \<Rightarrow> string \<Rightarrow> exn + store_location list" where
  "parse_store_response response zipcode =
     (case extract_structured_stores response zipcode of
        Inl e \<Rightarrow> Inr []
      | Inr stores \<Rightarrow>
          (let stores = (if stores = [] then extract_stores_by_patterns response zipcode else stores)
           in Inr (map snd (unique_stores [] stores))))"

text \<open>
  The placeholder the prompt of \<open>search_products\<close> gives for \<open>IMAGE_URL\<close>, and the
  field prefixes \<open>_parse_product_response\<close> tests before it looks for a bare URL.
\<close>

definition image_url_placeholder :: string where
  "image_url_placeholder =
     ''[Actual product image URL from store website, or \"N/A\" if not found]''"

definition earlier_prefixes :: "string list" where
  "earlier_prefixes = [''PRODUCT:'', ''BRAND:'', ''PRICE:'', ''SIZE:'', ''CATEGORY:'',
     ''AVAILABILITY:'', ''DESCRIPTION:'', ''IMAGE_URL:'']"



text \<open>
  A piece of a store id, as \<open>_create_store_id\<close> joins them with underscores:
  non-empty, alphanumeric, without upper-case letters.
\<close>

definition slug_piece :: "string \<Rightarrow> bool" where
  "slug_piece w = (w \<noteq> [] \<and> (\<forall>c\<in>set w. isalnum c \<and> \<not> isupper c))"

section \<open>Aggregation (\<open>aggregate_products\<close> in main.py, scraper/cache.py)\<close>

subsection \<open>The Normalizer\<close>

text \<open>\<open>norm_text\<close>: \<open>(s or "").lower().strip()\<close>.\<close>

definition norm_text :: "string option \<Rightarrow> string" where
  "norm_text s = strip (lower (case s of None \<Rightarrow> [] | Some v \<Rightarrow> v))"

definition norm_name :: "string option \<Rightarrow> string" where
  "norm_name name =
     (let n = norm_text name;
          n = foldl (\<lambda>n token. replace n ('' '' @ token @ '' '') '' '') n
                [''brand'', ''original'', ''the''];
          n = replace n ''-'' '' ''
      in join '' '' (split_ws n))"

definition norm_size :: "string option \<Rightarrow> string" where
  "norm_size sz =
     (let s = norm_text sz;
          s = replace (replace (replace (replace s ''fluid ounces'' ''fl oz'')
                ''fluid ounce'' ''fl oz'') ''ounces'' ''oz'') ''ounce'' ''oz'';
          s = replace (replace s ''fl. oz'' ''fl oz'') ''fl-oz'' ''fl oz'';
          s = replace (replace (replace s ''packs'' ''pack'') '' ct'' '' count'') ''ct'' ''count''
      in join '' '' (split_ws s))"

subsection \<open>Offers and groups\<close>

record offer =
  o_store_id :: string
  o_store_name :: string
  o_name :: "string option"
  o_brand :: "string option"
  o_size :: "string option"
  o_price :: "price option"
  o_availability :: "string option"
  o_image_url :: "string option"
  o_product_url :: "string option"
  o_source :: "string list"

record group_offer =
  g_store_id :: string
  g_store_name :: string
  g_price :: "price option"
  g_availability :: "string option"
  g_product_url :: "string option"
  g_source :: "string list"

record canonical_product =
  c_name :: "string option"
  c_brand :: "string option"
  c_size :: "string option"
  c_images :: "string list"

record result_group =
  canonical_product :: canonical_product
  offers :: "group_offer list"

text \<open>The offer built from a Sonar product \<open>p\<close> and from a Serper row \<open>sp\<close>.\<close>

definition sonar_offer :: "string \<Rightarrow> string \<Rightarrow> product \<Rightarrow> offer" where
  "sonar_offer store_id store_name p =
     \<lparr>o_store_id = store_id, o_store_name = store_name, o_name = p_name p,
      o_brand = p_brand p, o_size = p_size p, o_price = p_price p,
      o_availability = p_availability p, o_image_url = p_image_url p,
      o_product_url = p_product_url p, o_source = [''perplexity_sonar'']\<rparr>"

definition serper_offer :: "string \<Rightarrow> string \<Rightarrow> product \<Rightarrow> offer" where
  "serper_offer store_id store_name sp =
     \<lparr>o_store_id = store_id, o_store_name = store_name, o_name = p_name sp,
      o_brand = None, o_size = None, o_price = p_price sp,
      o_availability = p_availability sp, o_image_url = p_image_url sp,
      o_product_url = p_product_url sp, o_source = [''serper_shopping'']\<rparr>"

text \<open>\<open>gkey = "|".join(key_parts)\<close>.\<close>

definition gkey :: "offer \<Rightarrow> string" where
  "gkey ofr = join ''|'' [norm_text (o_brand ofr), norm_name (o_name ofr), norm_size (o_size ofr)]"

text \<open>The entry created for a key that is not in \<open>grouped\<close> yet.\<close>

definition new_group :: "offer \<Rightarrow> result_group" where
  "new_group ofr =
     \<lparr>canonical_product =
        \<lparr>c_name = o_name ofr, c_brand = o_brand ofr, c_size = o_size ofr,
         c_images = (case o_image_url ofr of
                       None \<Rightarrow> []
                     | Some u \<Rightarrow> if u \<noteq> [] then [u] else [])\<rparr>,
      offers = []\<rparr>"

definition to_group_offer :: "offer \<Rightarrow> group_offer" where
  "to_group_offer ofr =
     \<lparr>g_store_id = o_store_id ofr, g_store_name = o_store_name ofr, g_price = o_price ofr,
      g_availability = o_availability ofr, g_product_url = o_product_url ofr,
      g_source = o_source ofr\<rparr>"

text \<open>
  One iteration of the loop over \<open>all_offers\<close>. The dict \<open>grouped\<close> is an
  association list in insertion order, with one entry for a key: a new key is added at
  the end, then the offer is appended to the entry of its key.
\<close>

definition add_offer :: "(string \<times> result_group) list \<Rightarrow> offer \<Rightarrow> (string \<times> result_group) list" where
  "add_offer grouped ofr =
     (let grouped' = (if map_of grouped (gkey ofr) = None
                      then grouped @ [(gkey ofr, new_group ofr)] else grouped)
      in map (\<lambda>(k, g). if k = gkey ofr
                         then (k, g\<lparr>offers := offers g @ [to_group_offer ofr]\<rparr>)
                         else (k, g)) grouped')"

fun group_offers :: "(string \<times> result_group) list \<Rightarrow> offer list \<Rightarrow> (string \<times> result_group) list" where
  "group_offers grouped [] = grouped"
| "group_offers grouped (ofr # os) = group_offers (add_offer grouped ofr) os"

subsection \<open>Cache keys (scraper/cache.py)\<close>

definition normalize_query :: "string \<Rightarrow> string" where
  "normalize_query query = join '' '' (split_ws (strip (lower query)))"

text \<open>\<open>products_key\<close>. \<open>sha1_hex\<close>, the hex digest of hashlib, is a parameter.\<close>

definition products_key ::
  "(string \<Rightarrow> string) \<Rightarrow> string \<Rightarrow> string \<Rightarrow> string list \<Rightarrow> bool \<Rightarrow> string" where
  "products_key sha1_hex zipcode query store_ids enhance =
     ''products:zip:'' @ zipcode @ '':q:'' @ sha1_hex (normalize_query query) @ '':stores:'' @
     sha1_hex (if store_ids \<noteq> [] then join '','' (sort store_ids) else ''__none__'') @
     '':enh:'' @ (if enhance then ''1'' else ''0'')"

subsection \<open>The request\<close>

text \<open>
  \<open>re.match(r"^\d{5}$", zipcode)\<close>: five digits; \<open>$\<close> also matches before a
  newline that ends the string.
\<close>

definition valid_zipcode :: "string \<Rightarrow> bool" where
  "valid_zipcode zipcode =
     (length (take 5 zipcode) = 5 \<and> list_all isdigit (take 5 zipcode) \<and>
      (drop 5 zipcode = [] \<or> drop 5 zipcode = ''\<newline>''))"

text \<open>
  \<open>to_store_name\<close>. \<open>str_title\<close>, Python's \<open>str.title\<close>, is a parameter.
\<close>

definition to_store_name :: "(string \<Rightarrow> string) \<Rightarrow> string \<Rightarrow> string" where
  "to_store_name str_title store_id =
     (case map_of [(''whole_foods'', ''Whole Foods Market''),
                   (''sams_club'', ''Sam'' @ [CHR 0x27] @ ''s Club''),
                   (''trader_joes'', ''Trader Joe'' @ [CHR 0x27] @ ''s''),
                   (''ahold_delhaize'', ''Stop & Shop'')] store_id of
        Some store_name \<Rightarrow> store_name
      | None \<Rightarrow> str_title (replace store_id ''_'' '' ''))"

text \<open>
  \<open>user_store_ids\<close> from the optional parameter \<open>stores\<close>, and the store ids
  considered: the caller's list when it is not empty, else the ids of the nearby stores;
  at most ten.
\<close>

definition user_store_ids :: "string option \<Rightarrow> string list" where
  "user_store_ids stores =
     (case stores of
        None \<Rightarrow> []
      | Some v \<Rightarrow> if v = [] then []
                  else map (\<lambda>s. lower (strip s)) (filter (\<lambda>s. strip s \<noteq> []) (split v '','')))"

definition considered_store_ids :: "string option \<Rightarrow> string list \<Rightarrow> string list" where
  "considered_store_ids stores nearby =
     (if user_store_ids stores \<noteq> [] then take 10 (user_store_ids stores) else take 10 nearby)"

subsection \<open>Collaborators\<close>

text \<open>
  What the endpoint awaits comes from an environment; every call is recorded in a trace.
  \<^item> \<open>nearby_stores\<close>: the store ids of \<open>location_service.get_nearby_stores(zipcode)\<close>;
  \<^item> \<open>cache_client\<close>: whether \<open>Cache.client\<close> is set (a Redis URL is configured);
  \<^item> \<open>redis_get\<close>: \<open>client.get(key)\<close> followed by \<open>_decompress_json\<close>;
    \<open>redis_ttl\<close>: \<open>client.ttl(key)\<close>; \<open>redis_set\<close>: \<open>_compress_json\<close> followed by
    \<open>client.set(key, blob, ex=ttl)\<close>, \<open>None\<close> when it returns;
  \<^item> \<open>search_products\<close>: the entry of \<open>raw_results\<close> for the task of index
    \<open>idx\<close>, \<open>wait_for(sonar_client.search_products(query, store_name, zipcode, enhance), 20)\<close>;
  \<^item> \<open>serper_available\<close> and \<open>search_shopping_products\<close>: the Serper client, called
    with the query and the store name for the store of index \<open>idx\<close>;
  \<^item> \<open>sha1_hex\<close>: the hash of the cache keys; \<open>str_title\<close>: \<open>str.title\<close>.
  The tasks of \<open>asyncio.gather\<close> run concurrently; the trace lists their calls in the
  order of submission.
\<close>

text \<open>
  An entry of \<open>raw_results\<close>. With \<open>return_exceptions=True\<close>, \<open>asyncio.gather\<close>
  returns for each task the list it returned, or the exception it raised: an instance of
  \<open>Exception\<close> (the \<open>TimeoutError\<close> of \<open>wait_for\<close> included), or a
  \<open>CancelledError\<close>, which is a \<open>BaseException\<close> and no instance of \<open>Exception\<close>.
\<close>

datatype task_result = Returned "product list" | Raised exn | Cancelled

record payload =
  r_query :: string
  r_zipcode :: string
  r_stores_considered :: "string list"
  r_results :: "result_group list"
  r_source :: string

record cache_info =
  hit :: bool
  near_stale :: "bool option"

datatype http_error = HTTPException nat string

datatype io_event =
    GetNearbyStores string
  | CacheGet string
  | CacheTtl string
  | SearchProducts nat string string string bool
  | SearchShopping nat string string
  | CacheSet string

record env =
  nearby_stores :: "string \<Rightarrow> exn + string list"
  cache_client :: bool
  redis_get :: "string \<Rightarrow> exn + payload option"
  redis_ttl :: "string \<Rightarrow> exn + int"
  redis_set :: "string \<Rightarrow> payload \<Rightarrow> nat \<Rightarrow> exn option"
  search_products :: "nat \<Rightarrow> string \<Rightarrow> string \<Rightarrow> string \<Rightarrow> bool \<Rightarrow> task_result"
  serper_available :: bool
  search_shopping_products :: "nat \<Rightarrow> string \<Rightarrow> string \<Rightarrow> exn + product list"
  sha1_hex :: "string \<Rightarrow> string"
  str_title :: "string \<Rightarrow> string"

text \<open>\<open>Cache.get_json\<close>, \<open>Cache.ttl_seconds\<close> and \<open>Cache.set_json\<close>.\<close>

definition get_json :: "env \<Rightarrow> string \<Rightarrow> (exn + payload option) \<times> io_event list" where
  "get_json e key =
     (if \<not> cache_client e then (Inr None, []) else (redis_get e key, [CacheGet key]))"

definition ttl_seconds :: "env \<Rightarrow> string \<Rightarrow> (exn + int option) \<times> io_event list" where
  "ttl_seconds e key =
     (if \<not> cache_client e then (Inr None, [])
      else (case redis_ttl e key of Inl x \<Rightarrow> Inl x | Inr t \<Rightarrow> Inr (Some t), [CacheTtl key]))"

definition set_json :: "env \<Rightarrow> string \<Rightarrow> payload \<Rightarrow> nat \<Rightarrow> exn option \<times> io_event list" where
  "set_json e key obj ttl =
     (if \<not> cache_client e then (None, []) else (redis_set e key obj ttl, [CacheSet key]))"

subsection \<open>Fan-out and normalisation into offers\<close>

text \<open>
  One iteration of the loop over \<open>enumerate(raw_results)\<close>: the offers it appends to
  \<open>all_offers\<close> and the call it makes. \<open>res\<close> is the entry for the store. An
  instance of \<open>Exception\<close> is logged and skipped. A \<open>CancelledError\<close> passes the
  test \<open>isinstance(res, Exception)\<close>, is truthy, and then \<open>for p in products\<close> raises
  a \<open>TypeError\<close>.
\<close>

definition store_offers ::
  "env \<Rightarrow> string \<Rightarrow> nat \<Rightarrow> string \<Rightarrow> task_result \<Rightarrow> exn + offer list \<times> io_event list" where
  "store_offers e query idx store_id res =
     (case res of
        Raised x \<Rightarrow> Inr ([], [])
      | Cancelled \<Rightarrow>
          Inl (Exception ([CHR 0x27] @ ''CancelledError'' @ [CHR 0x27] @ '' object is not iterable''))
      | Returned products \<Rightarrow>
          if products = [] \<and> serper_available e then
            Inr (case search_shopping_products e idx query (to_store_name (str_title e) store_id) of
                   Inl x \<Rightarrow> []
                 | Inr serper_products \<Rightarrow>
                     map (serper_offer store_id (to_store_name (str_title e) store_id))
                       serper_products,
                 [SearchShopping idx query (to_store_name (str_title e) store_id)])
          else Inr (map (sonar_offer store_id (to_store_name (str_title e) store_id)) products, []))"

text \<open>
  The loop over \<open>enumerate(raw_results)\<close>, from \<open>all_offers\<close> and the calls made so
  far. When an iteration raises, the loop ends with the exception.
\<close>

fun offers_loop ::
  "env \<Rightarrow> string \<Rightarrow> string \<Rightarrow> bool \<Rightarrow> offer list \<times> io_event list \<Rightarrow> (nat \<times> string) list \<Rightarrow>
     (offer list \<times> io_event list) \<times> exn option" where
  "offers_loop e query zipcode enhance st [] = (st, None)"
| "offers_loop e query zipcode enhance st ((idx, store_id) # rest) =
     (case store_offers e query idx store_id
             (search_products e idx query (to_store_name (str_title e) store_id) zipcode enhance) of
        Inl x \<Rightarrow> (st, Some x)
      | Inr (new_offers, calls) \<Rightarrow>
          offers_loop e query zipcode enhance (fst st @ new_offers, snd st @ calls) rest)"

text \<open>
  The fan-out as a whole. The result of \<open>asyncio.gather\<close>, \<open>raw_results\<close>, holds
  the entry of \<open>search_products\<close> for each considered store, in their order; the loop
  over it gives \<open>all_offers\<close>. The trace has the Sonar calls first, then the Serper
  calls of the loop. \<open>fan_out_raised\<close> is the exception that ended the loop, if any.
\<close>

definition fan_out ::
  "env \<Rightarrow> string \<Rightarrow> string \<Rightarrow> bool \<Rightarrow> string list \<Rightarrow> offer list \<times> io_event list" where
  "fan_out e query zipcode enhance considered =
     (let looped = fst (offers_loop e query zipcode enhance ([], [])
                          (zip [0..<length considered] considered))
      in (fst looped,
          map (\<lambda>(idx, store_id).
                 SearchProducts idx query (to_store_name (str_title e) store_id) zipcode enhance)
            (zip [0..<length considered] considered) @
          snd looped))"

definition fan_out_raised ::
  "env \<Rightarrow> string \<Rightarrow> string \<Rightarrow> bool \<Rightarrow> string list \<Rightarrow> exn option" where
  "fan_out_raised e query zipcode enhance considered =
     snd (offers_loop e query zipcode enhance ([], []) (zip [0..<length considered] considered))"

definition build_response :: "string \<Rightarrow> string \<Rightarrow> string list \<Rightarrow> offer list \<Rightarrow> payload" where
  "build_response query zipcode considered all_offers =
     \<lparr>r_query = query, r_zipcode = zipcode, r_stores_considered = considered,
      r_results = map snd (group_offers [] all_offers), r_source = ''aggregate(sonar)''\<rparr>"

subsection \<open>The endpoint\<close>

text \<open>
  \<open>except HTTPException: raise\<close> and
  \<open>except Exception as e: raise HTTPException(status_code=500, detail=str(e))\<close>.
\<close>

definition internal_error :: "exn \<Rightarrow> http_error" where
  "internal_error x = (case x of Exception msg \<Rightarrow> HTTPException 500 msg)"

text \<open>
  \<open>aggregate_products\<close>: the response, or the \<open>HTTPException\<close> raised, and the trace
  of the calls made. The cached value is a payload that an earlier call has stored.
\<close>

definition aggregate_products ::
  "env \<Rightarrow> string \<Rightarrow> string \<Rightarrow> string option \<Rightarrow> bool \<Rightarrow>
     (http_error + payload \<times> cache_info) \<times> io_event list" where
  "aggregate_products e query zipcode stores enhance =
     (if \<not> valid_zipcode zipcode then (Inl (HTTPException 400 ''Invalid zipcode format''), [])
      else case nearby_stores e zipcode of
        Inl x \<Rightarrow> (Inl (internal_error x), [GetNearbyStores zipcode])
      | Inr nearby \<Rightarrow>
        (let considered = considered_store_ids stores nearby;
             key = products_key (sha1_hex e) zipcode query considered enhance;
             t1 = [GetNearbyStores zipcode] @ snd (get_json e key)
         in case fst (get_json e key) of
              Inl x \<Rightarrow> (Inl (internal_error x), t1)
            | Inr (Some cached) \<Rightarrow>
                (case fst (ttl_seconds e key) of
                   Inl x \<Rightarrow> (Inl (internal_error x), t1 @ snd (ttl_seconds e key))
                 | Inr ttl \<Rightarrow>
                     (Inr (cached,
                           \<lparr>hit = True,
                            near_stale = Some (case ttl of None \<Rightarrow> False
                                               | Some t \<Rightarrow> 0 < t \<and> t < 2880)\<rparr>),
                      t1 @ snd (ttl_seconds e key)))
            | Inr None \<Rightarrow>
                (let all_offers = fst (fan_out e query zipcode enhance considered);
                     t2 = t1 @ snd (fan_out e query zipcode enhance considered);
                     response = build_response query zipcode considered all_offers;
                     t3 = t2 @ snd (set_json e key response (60 * 60 * 4))
                 in case fan_out_raised e query zipcode enhance considered of
                      Some x \<Rightarrow> (Inl (internal_error x), t2)
                    | None \<Rightarrow>
                        (case fst (set_json e key response (60 * 60 * 4)) of
                           Some x \<Rightarrow> (Inl (internal_error x), t3)
                         | None \<Rightarrow> (Inr (response, \<lparr>hit = False, near_stale = None\<rparr>), t3)))))"

subsection \<open>An example environment\<close>

text \<open>
  An environment for concrete runs: two nearby stores, an empty cache, the entries of
  \<open>raw_results\<close> and the outcomes of the Serper calls by index, and the outcome of a
  cache write. The identity stands in for the hash, and \<open>str_title\<close> is given by its
  values on the store ids that the runs use.
\<close>

definition example_env ::
  "(nat \<Rightarrow> task_result) \<Rightarrow> (nat \<Rightarrow> exn + product list) \<Rightarrow> bool \<Rightarrow> exn option \<Rightarrow> env" where
  "example_env tasks rows client written =
     \<lparr>nearby_stores = (\<lambda>zipcode. Inr [''target'', ''aldi'']),
      cache_client = client,
      redis_get = (\<lambda>key. Inr None),
      redis_ttl = (\<lambda>key. Inr (- 2)),
      redis_set = (\<lambda>key obj ttl. written),
      search_products = (\<lambda>idx query store_name zipcode enhance. tasks idx),
      serper_available = True,
      search_shopping_products = (\<lambda>idx query store_name. rows idx),
      sha1_hex = (\<lambda>s. s),
      str_title = (\<lambda>s. case map_of [(''target'', ''Target''), (''aldi'', ''Aldi''),
                                        (''walmart'', ''Walmart'')] s of
                          Some t \<Rightarrow> t | None \<Rightarrow> s)\<rparr>"

definition named_product :: "string \<Rightarrow> string \<Rightarrow> product" where
  "named_product name image_url =
     empty_product\<lparr>p_name := Some name, p_image_url := Some image_url\<rparr>"

section \<open>Properties of the parsers\<close>

subsection \<open>The parsers return\<close>

lemma parse_products_by_patterns_returns: "\<exists>ps. parse_products_by_patterns text = Inr ps"
  by (simp add: parse_products_by_patterns_def split: prod.splits option.splits)

lemma parse_product_response_returns: "\<exists>ps. parse_product_response text = Inr ps"
  by (simp add: parse_product_response_def split: prod.splits option.splits sum.splits)

lemma parse_store_response_returns: "\<exists>ss. parse_store_response text zipcode = Inr ss"
  by (simp add: parse_store_response_def split: sum.splits)

text \<open>
  C9. For every input text, \<open>_parse_product_response\<close>, its fallback
  \<open>_parse_products_by_patterns\<close> and \<open>_parse_store_response\<close> (whose fallback
  \<open>_extract_stores_by_patterns\<close> has no raising statement) return a list and never
  raise: an exception of the body, the \<open>ValueError\<close> of a \<open>WEBSITE:\<close> line
  included, ends in the handler, which returns the list built so far.
\<close>

theorem parse_never_raises:
  "(\<exists>ps. parse_product_response text = Inr ps) \<and>
   (\<exists>ps. parse_products_by_patterns text = Inr ps) \<and>
   (\<exists>ss. parse_store_response text zipcode = Inr ss)"
  using parse_products_by_patterns_returns parse_product_response_returns
    parse_store_response_returns by blast

theorem parse_never_raises_witness:
  "(\<exists>ps. parse_product_response ''STORE: Giant Eagle\<newline>WEBSITE: https://www.gianteagle.com'' =
      Inr ps) \<and>
   (\<exists>ps. parse_products_by_patterns ''STORE: Giant Eagle\<newline>WEBSITE: https://www.gianteagle.com'' =
      Inr ps) \<and>
   (\<exists>ss. parse_store_response ''STORE: Giant Eagle\<newline>WEBSITE: https://www.gianteagle.com''
      ''15213'' = Inr ss)"
  by (rule parse_never_raises)

subsection \<open>Bare image URLs and the DEALS field\<close>

lemma startswith_Cons: "startswith (c # cs) (d # ds) = (c = d \<and> startswith cs ds)"
  by (simp add: startswith_def)

lemma deals_not_earlier:
  assumes "startswith line ''DEALS:''"
  shows "\<forall>k\<in>set earlier_prefixes. \<not> startswith line k"
proof -
  obtain a b c r where line: "line = a # b # c # r"
    using assms by (cases line; cases "tl line"; cases "tl (tl line)") (auto simp: startswith_def)
  show ?thesis using assms unfolding line earlier_prefixes_def
    by (auto simp: startswith_Cons)
qed

lemma product_line_bare_url:
  assumes "search_image (strip raw) = Some u" and "p_image_url cur = None"
    and "\<forall>k\<in>set earlier_prefixes. \<not> startswith (strip raw) k"
  shows "product_line cur raw = Inr (cur\<lparr>p_image_url := Some u\<rparr>)"
proof -
  have ne: "strip raw \<noteq> []" using assms(1) by auto
  show ?thesis using assms ne
    by (simp add: product_line_def earlier_prefixes_def Let_def)
qed

text \<open>
  C10, as stated, fails: a line that starts with one of the eight prefixes tested
  earlier is consumed by that field, also when it holds an image URL and the record has
  no image URL yet. Here the line sets \<open>brand\<close> and leaves \<open>image_url\<close> unset.
\<close>

theorem bare_url_counterexample:
  "search_image (strip ''BRAND: http://x.com/a.png'') = Some ''http://x.com/a.png'' \<and>
   p_image_url empty_product = None \<and>
   product_line empty_product ''BRAND: http://x.com/a.png'' =
     Inr (empty_product\<lparr>p_brand := Some ''http://x.com/a.png''\<rparr>)"
  by code_simp

text \<open>
  C10, amended. The bare-URL recovery is tested after the prefixes PRODUCT, BRAND, PRICE,
  SIZE, CATEGORY, AVAILABILITY, DESCRIPTION and IMAGE_URL and before DEALS: for every
  line that starts with none of these eight prefixes and contains a URL ending in a known
  image extension, if the current record has no image URL yet, the leftmost such URL is
  stored as the image URL and nothing else of the record changes. A line that begins with
  \<open>DEALS:\<close> is such a line, so it sets \<open>image_url\<close> and leaves \<open>deals\<close> as it was.
\<close>

theorem bare_url_before_deals:
  assumes "search_image (strip raw) = Some u" and "p_image_url cur = None"
    and "startswith (strip raw) ''DEALS:'' \<or>
         (\<forall>k\<in>set earlier_prefixes. \<not> startswith (strip raw) k)"
  shows "product_line cur raw = Inr (cur\<lparr>p_image_url := Some u\<rparr>)"
  using assms deals_not_earlier product_line_bare_url by blast

theorem bare_url_before_deals_witness:
  "product_line empty_product ''DEALS: see http://x.com/a.png today'' =
     Inr (empty_product\<lparr>p_image_url := Some ''http://x.com/a.png''\<rparr>)"
proof -
  have a: "search_image (strip ''DEALS: see http://x.com/a.png today'') = Some ''http://x.com/a.png''"
    by code_simp
  have b: "p_image_url empty_product = None" by (simp add: empty_product_def)
  have c: "startswith (strip ''DEALS: see http://x.com/a.png today'') ''DEALS:''" by code_simp
  show ?thesis using bare_url_before_deals [OF a b] c by blast
qed

subsection \<open>Placeholder echoes\<close>

text \<open>
  C5 fails on the code for the IMAGE_URL field. The parser compares the value with
  \<open>[Product image URL if available, or "N/A"]\<close>, which is not the placeholder of the
  prompt, so an echo of the prompt's placeholder is stored as the image URL of the
  emitted record.
\<close>

theorem image_placeholder_materialized:
  "parse_product_response (''PRODUCT: Oat Milk\<newline>IMAGE_URL: '' @ image_url_placeholder) =
     Inr [empty_product\<lparr>p_name := Some ''Oat Milk'',
            p_image_url := Some image_url_placeholder\<rparr>]"
  by code_simp

subsection \<open>Duplicates\<close>

lemma unique_stores_inv:
  assumes "distinct (map fst d)" and "\<forall>(k, v)\<in>set d. s_store_id v = k"
  shows "distinct (map fst (unique_stores d stores)) \<and>
         (\<forall>(k, v)\<in>set (unique_stores d stores). s_store_id v = k)"
  using assms
proof (induction stores arbitrary: d)
  case Nil
  then show ?case by simp
next
  case (Cons s stores)
  show ?case
  proof (cases "map_of d (s_store_id s)")
    case None
    then have "s_store_id s \<notin> fst ` set d" by (simp add: map_of_eq_None_iff)
    with Cons.prems have "distinct (map fst (d @ [(s_store_id s, s)]))"
      and "\<forall>(k, v)\<in>set (d @ [(s_store_id s, s)]). s_store_id v = k"
      by auto
    from Cons.IH [OF this] None show ?thesis by simp
  next
    case (Some a)
    with Cons.IH [OF Cons.prems] show ?thesis by simp
  qed
qed

lemma unique_stores_prefix: "\<exists>e. unique_stores d stores = d @ e"
proof (induction stores arbitrary: d)
  case Nil
  then show ?case by simp
next
  case (Cons s stores)
  show ?case using Cons.IH [of "d @ [(s_store_id s, s)]"] Cons.IH [of d]
    by (cases "map_of d (s_store_id s)") auto
qed

lemma map_of_unique_stores_keep:
  assumes "map_of d k = Some v"
  shows "map_of (unique_stores d stores) k = Some v"
proof -
  obtain e where "unique_stores d stores = d @ e" using unique_stores_prefix by blast
  with assms show ?thesis by (simp add: map_add_Some_iff)
qed

lemma unique_stores_first:
  assumes "map_of d (s_store_id s) = None" and "s \<in> set stores"
  shows "\<exists>t. find (\<lambda>u. s_store_id u = s_store_id s) stores = Some t \<and>
             map_of (unique_stores d stores) (s_store_id s) = Some t"
  using assms
proof (induction stores arbitrary: d)
  case Nil
  then show ?case by simp
next
  case (Cons x stores)
  show ?case
  proof (cases "s_store_id x = s_store_id s")
    case True
    then have "map_of (d @ [(s_store_id x, x)]) (s_store_id s) = Some x"
      using Cons.prems(1) by (simp add: map_add_Some_iff)
    then have "map_of (unique_stores (d @ [(s_store_id x, x)]) stores) (s_store_id s) = Some x"
      by (rule map_of_unique_stores_keep)
    with True Cons.prems(1) show ?thesis by simp
  next
    case False
    then have s: "s \<in> set stores" using Cons.prems(2) by auto
    have "map_of (if map_of d (s_store_id x) = None then d @ [(s_store_id x, x)] else d)
            (s_store_id s) = None"
      using False Cons.prems(1) by (auto simp: map_add_def)
    from Cons.IH [OF this s] False show ?thesis by simp
  qed
qed

lemma unique_stores_only_first:
  assumes "(k, v) \<in> set (unique_stores d stores)"
  shows "(k, v) \<in> set d \<or>
         (map_of d k = None \<and> find (\<lambda>u. s_store_id u = k) stores = Some v)"
  using assms
proof (induction stores arbitrary: d)
  case Nil
  then show ?case by simp
next
  case (Cons x stores)
  show ?case
  proof (cases "map_of d (s_store_id x)")
    case None
    from Cons.prems None have "(k, v) \<in> set (unique_stores (d @ [(s_store_id x, x)]) stores)"
      by simp
    from Cons.IH [OF this] show ?thesis
    proof
      assume "(k, v) \<in> set (d @ [(s_store_id x, x)])"
      then show ?thesis using None by auto
    next
      assume a: "map_of (d @ [(s_store_id x, x)]) k = None \<and>
                 find (\<lambda>u. s_store_id u = k) stores = Some v"
      then have "k \<noteq> s_store_id x" "map_of d k = None"
        by (auto simp: map_add_def split: option.splits if_splits)
      with a show ?thesis by simp
    qed
  next
    case (Some y)
    from Cons.prems Some have "(k, v) \<in> set (unique_stores d stores)" by simp
    from Cons.IH [OF this] show ?thesis using Some by auto
  qed
qed

text \<open>
  C7, as stated, fails for Product records: \<open>_parse_product_response\<close> appends the
  record of every section that has a name and removes nothing, so two sections with the
  same product name give two records.
\<close>

theorem product_duplicates_counterexample:
  "parse_product_response ''PRODUCT: Milk\<newline>\<newline>PRODUCT: Milk'' =
     Inr [empty_product\<lparr>p_name := Some ''Milk''\<rparr>, empty_product\<lparr>p_name := Some ''Milk''\<rparr>]"
  by code_simp

text \<open>
  C7, amended to Store parsing. For every raw text, the list \<open>_parse_store_response\<close>
  returns has no two records with the same store id. Whenever
  \<open>_extract_structured_stores\<close> returns its list of stores, the first occurrence wins:
  for every store found, the returned list holds the first found store with that id, and
  every returned record is the first found store with its id. When the extraction raises,
  the returned list is empty.
\<close>

theorem store_dedup_first_wins:
  assumes "parse_store_response response zipcode = Inr ss"
  shows "distinct (map s_store_id ss) \<and>
         (\<forall>c. extract_structured_stores response zipcode = Inr c \<longrightarrow>
            (\<forall>s\<in>set c. \<exists>t\<in>set ss. find (\<lambda>u. s_store_id u = s_store_id s) c = Some t)) \<and>
         (\<forall>c. extract_structured_stores response zipcode = Inr c \<longrightarrow>
            (\<forall>t\<in>set ss. find (\<lambda>u. s_store_id u = s_store_id t) c = Some t)) \<and>
         (\<forall>x. extract_structured_stores response zipcode = Inl x \<longrightarrow> ss = [])"
proof (cases "extract_structured_stores response zipcode")
  case (Inl e)
  with assms show ?thesis by (simp add: parse_store_response_def)
next
  case (Inr c)
  have fb: "(if c = [] then extract_stores_by_patterns response zipcode else c) = c"
    using Inr by (auto simp: extract_structured_stores_def split: sum.splits if_splits)
  have ss: "ss = map snd (unique_stores [] c)"
    using assms Inr fb by (simp add: parse_store_response_def)
  have inv: "distinct (map fst (unique_stores [] c))"
    "\<forall>(k, v)\<in>set (unique_stores [] c). s_store_id v = k"
    using unique_stores_inv [of "[]" c] by auto
  have "map s_store_id ss = map fst (unique_stores [] c)"
    unfolding ss using inv(2) by (induction "unique_stores [] c") auto
  then have d: "distinct (map s_store_id ss)" using inv(1) by simp
  have first: "\<exists>t\<in>set ss. find (\<lambda>u. s_store_id u = s_store_id s) c = Some t"
    if sc: "s \<in> set c" for s
  proof -
    obtain t where t: "find (\<lambda>u. s_store_id u = s_store_id s) c = Some t"
      "map_of (unique_stores [] c) (s_store_id s) = Some t"
      using unique_stores_first [of "[]" s c] sc by auto
    from t(2) have "t \<in> set ss" unfolding ss by (force dest: map_of_SomeD)
    with t(1) show ?thesis by blast
  qed
  have only: "find (\<lambda>u. s_store_id u = s_store_id t) c = Some t" if ts: "t \<in> set ss" for t
  proof -
    obtain k where k: "(k, t) \<in> set (unique_stores [] c)" using ts unfolding ss by auto
    then have "s_store_id t = k" using inv(2) by auto
    moreover have "find (\<lambda>u. s_store_id u = k) c = Some t"
      using unique_stores_only_first [OF k] by simp
    ultimately show ?thesis by simp
  qed
  from d first only Inr show ?thesis by simp
qed

theorem store_dedup_first_wins_witness:
  "parse_store_response ''STORE: Giant Eagle\<newline>STATUS: open\<newline>\<newline>STORE: giant-eagle'' ''15213'' =
     Inr [(new_store ''giant_eagle'' ''Giant Eagle'' ''15213'')\<lparr>s_status := ''open''\<rparr>] \<and>
   extract_structured_stores ''STORE: Giant Eagle\<newline>STATUS: open\<newline>\<newline>STORE: giant-eagle'' ''15213'' =
     Inr [(new_store ''giant_eagle'' ''Giant Eagle'' ''15213'')\<lparr>s_status := ''open''\<rparr>,
          new_store ''giant_eagle'' ''giant-eagle'' ''15213''] \<and>
   distinct (map s_store_id [(new_store ''giant_eagle'' ''Giant Eagle'' ''15213'')\<lparr>s_status := ''open''\<rparr>]) \<and>
   find (\<lambda>u. s_store_id u = s_store_id (new_store ''giant_eagle'' ''giant-eagle'' ''15213''))
     [(new_store ''giant_eagle'' ''Giant Eagle'' ''15213'')\<lparr>s_status := ''open''\<rparr>,
      new_store ''giant_eagle'' ''giant-eagle'' ''15213''] =
     Some ((new_store ''giant_eagle'' ''Giant Eagle'' ''15213'')\<lparr>s_status := ''open''\<rparr>)"
proof -
  have h: "parse_store_response ''STORE: Giant Eagle\<newline>STATUS: open\<newline>\<newline>STORE: giant-eagle'' ''15213'' =
     Inr [(new_store ''giant_eagle'' ''Giant Eagle'' ''15213'')\<lparr>s_status := ''open''\<rparr>]"
    by code_simp
  have c: "extract_structured_stores ''STORE: Giant Eagle\<newline>STATUS: open\<newline>\<newline>STORE: giant-eagle'' ''15213'' =
     Inr [(new_store ''giant_eagle'' ''Giant Eagle'' ''15213'')\<lparr>s_status := ''open''\<rparr>,
          new_store ''giant_eagle'' ''giant-eagle'' ''15213'']"
    by code_simp
  show ?thesis using h c store_dedup_first_wins [OF h] by auto
qed

subsection \<open>Store ids\<close>

lemma replace_absent: "a \<notin> set s \<Longrightarrow> replace s [a] new = s"
  by (induction s) (auto simp: startswith_def)

lemma set_replace_single: "set (replace s [a] new) \<subseteq> set s \<union> set new"
  by (induction s) (auto simp: startswith_def)

lemma split_acc_chars:
  "w \<in> set (split_acc [a] acc s) \<Longrightarrow> set w \<subseteq> set acc \<union> (set s - {a})"
  by (induction s arbitrary: acc) (fastforce simp: startswith_def split: if_splits)+

lemma split_chars: "w \<in> set (split s [a]) \<Longrightarrow> set w \<subseteq> set s - {a}"
  using split_acc_chars [of w a "[]" s] by (simp add: split_def)

lemma split_acc_append:
  "a \<notin> set w \<Longrightarrow> split_acc [a] acc (w @ rest) = split_acc [a] (rev w @ acc) rest"
  by (induction w arbitrary: acc) (auto simp: startswith_def)

lemma split_acc_join:
  "\<forall>v\<in>set (w # ws). a \<notin> set v \<Longrightarrow> split_acc [a] acc (join [a] (w # ws)) = (rev acc @ w) # ws"
proof (induction ws arbitrary: w acc)
  case Nil
  then show ?case using split_acc_append [of a w acc "[]"] by simp
next
  case (Cons y ys)
  have "split_acc [a] acc (w @ a # join [a] (y # ys)) =
        split_acc [a] (rev w @ acc) (a # join [a] (y # ys))"
    using Cons.prems split_acc_append [of a w acc] by simp
  also have "\<dots> = (rev acc @ w) # split_acc [a] [] (join [a] (y # ys))"
    by (simp add: startswith_def)
  also have "split_acc [a] [] (join [a] (y # ys)) = y # ys"
    using Cons.IH [of y "[]"] Cons.prems by simp
  finally show ?case by simp
qed

lemma set_join: "set (join sep ws) \<subseteq> set sep \<union> \<Union> (set ` set ws)"
  by (induction sep ws rule: join.induct) auto

lemma of_char_lower_upper:
  "isupper c \<Longrightarrow> (of_char (lower_char c) :: nat) = of_char c + 32"
  by (auto simp: lower_char_def isupper_def Let_def)

lemma not_isupper_lower_char: "\<not> isupper (lower_char c)"
proof (cases "isupper c")
  case True
  then show ?thesis
    using of_char_lower_upper [OF True] by (auto simp: isupper_def Let_def)
next
  case False
  then show ?thesis by (simp add: lower_char_def)
qed

lemma lower_fixed: "\<forall>c\<in>set s. \<not> isupper c \<Longrightarrow> lower s = s"
  by (induction s) (simp_all add: lower_def lower_char_def)

lemma not_upper_literals:
  "\<not> isupper CHR ''_''" "\<not> isupper CHR ''a''" "\<not> isupper CHR ''n''" "\<not> isupper CHR ''d''"
  by (simp_all add: isupper_def)

lemma slug_chars:
  assumes "\<forall>w\<in>set ws. slug_piece w" and "c \<in> set (join ''_'' ws)"
  shows "c = CHR ''_'' \<or> (isalnum c \<and> \<not> isupper c)"
proof -
  have "c \<in> set ''_'' \<union> \<Union> (set ` set ws)" using set_join assms(2) by blast
  then show ?thesis using assms(1) unfolding slug_piece_def by auto
qed

lemma slug_low:
  assumes "\<forall>c\<in>set y. c = CHR ''_'' \<or> (isalnum c \<and> \<not> isupper c)"
  shows "lower y = y"
proof (rule lower_fixed, rule ballI)
  fix c assume "c \<in> set y"
  then have "c = CHR ''_'' \<or> (isalnum c \<and> \<not> isupper c)" using assms by blast
  then show "\<not> isupper c" using not_upper_literals(1) by blast
qed

lemma slug_absent:
  assumes "\<forall>c\<in>set y. c = CHR ''_'' \<or> (isalnum c \<and> \<not> isupper c)"
  shows "CHR '' '' \<notin> set y \<and> CHR ''-'' \<notin> set y \<and> CHR 0x27 \<notin> set y \<and> CHR ''&'' \<notin> set y"
proof -
  have "\<not> isalnum CHR '' ''" "\<not> isalnum CHR ''-''" "\<not> isalnum CHR 0x27" "\<not> isalnum CHR ''&''"
    by (simp_all add: isalnum_def)
  moreover have "CHR '' '' \<noteq> CHR ''_''" "CHR ''-'' \<noteq> CHR ''_''" "CHR 0x27 \<noteq> CHR ''_''"
    "CHR ''&'' \<noteq> CHR ''_''"
    by simp_all
  ultimately show ?thesis using assms by blast
qed

lemma slug_fil:
  assumes "\<forall>c\<in>set y. c = CHR ''_'' \<or> (isalnum c \<and> \<not> isupper c)"
  shows "filter (\<lambda>c. isalnum c \<or> c = CHR ''_'') y = y"
  unfolding filter_id_conv using assms by blast

lemma slug_rep:
  assumes "CHR '' '' \<notin> set y \<and> CHR ''-'' \<notin> set y \<and> CHR 0x27 \<notin> set y \<and> CHR ''&'' \<notin> set y"
  shows "replace (replace (replace (replace y '' '' ''_'') ''-'' ''_'') [CHR 0x27] []) ''&'' ''and'' = y"
proof -
  have 1: "replace y '' '' ''_'' = y" using assms by (intro replace_absent) blast
  have 2: "replace y ''-'' ''_'' = y" using assms by (intro replace_absent) blast
  have 3: "replace y [CHR 0x27] [] = y" using assms by (intro replace_absent) blast
  have 4: "replace y ''&'' ''and'' = y" using assms by (intro replace_absent) blast
  show ?thesis by (simp only: 1 2 3 4)
qed

lemma slug_split:
  assumes "\<forall>w\<in>set ws. slug_piece w"
  shows "join ''_'' (filter (\<lambda>w. w \<noteq> []) (split (join ''_'' ws) ''_'')) = join ''_'' ws"
proof (cases ws)
  case Nil
  then show ?thesis by (simp add: split_def)
next
  case (Cons w ws')
  have "\<not> isalnum CHR ''_''" by (simp add: isalnum_def)
  then have nous: "\<forall>v\<in>set (w # ws'). CHR ''_'' \<notin> set v"
    using assms unfolding Cons slug_piece_def by blast
  have "split_acc ''_'' [] (join ''_'' (w # ws')) = (rev [] @ w) # ws'"
    using nous by (rule split_acc_join)
  then have sp: "split (join ''_'' ws) ''_'' = ws"
    unfolding Cons split_def by simp
  have "filter (\<lambda>w. w \<noteq> []) ws = ws"
    unfolding filter_id_conv using assms unfolding slug_piece_def by blast
  with sp show ?thesis by simp
qed

lemma slug_fixed:
  assumes "\<forall>w\<in>set ws. slug_piece w"
  shows "create_store_id (join ''_'' ws) = join ''_'' ws"
proof -
  have chars: "\<forall>c\<in>set (join ''_'' ws). c = CHR ''_'' \<or> (isalnum c \<and> \<not> isupper c)"
    using slug_chars [OF assms] by blast
  show ?thesis
    unfolding create_store_id_def Let_def
    by (simp only: slug_low [OF chars] slug_rep [OF slug_absent [OF chars]] slug_fil [OF chars]
          slug_split [OF assms])
qed

lemma slug_shape: "\<exists>ws. create_store_id x = join ''_'' ws \<and> (\<forall>w\<in>set ws. slug_piece w)"
proof -
  define r1 where "r1 = replace (lower x) '' '' ''_''"
  define r2 where "r2 = replace r1 ''-'' ''_''"
  define r3 where "r3 = replace r2 [CHR 0x27] []"
  define r where "r = replace r3 ''&'' ''and''"
  define cl where "cl = filter (\<lambda>c. isalnum c \<or> c = CHR ''_'') r"
  define ws where "ws = filter (\<lambda>w. w \<noteq> []) (split cl ''_'')"
  have lo: "\<forall>c\<in>set (lower x). \<not> isupper c"
    unfolding lower_def using not_isupper_lower_char by auto
  have u1: "\<forall>c\<in>set r1. \<not> isupper c"
    unfolding r1_def
    using set_replace_single [of "lower x" "CHR '' ''" "''_''"] lo not_upper_literals by auto
  have u2: "\<forall>c\<in>set r2. \<not> isupper c"
    unfolding r2_def
    using set_replace_single [of r1 "CHR ''-''" "''_''"] u1 not_upper_literals by auto
  have u3: "\<forall>c\<in>set r3. \<not> isupper c"
    unfolding r3_def using set_replace_single [of r2 "CHR 0x27" "[]"] u2 by auto
  have u4: "\<forall>c\<in>set r. \<not> isupper c"
    unfolding r_def
    using set_replace_single [of r3 "CHR ''&''" "''and''"] u3 not_upper_literals by auto
  then have cl: "\<forall>c\<in>set cl. (isalnum c \<or> c = CHR ''_'') \<and> \<not> isupper c"
    by (auto simp: cl_def)
  have "slug_piece w" if "w \<in> set ws" for w
  proof -
    have w: "w \<in> set (split cl ''_'')" "w \<noteq> []" using that by (auto simp: ws_def)
    have "set w \<subseteq> set cl - {CHR ''_''}" using split_chars [OF w(1)] .
    then show ?thesis using cl w(2) unfolding slug_piece_def by blast
  qed
  moreover have "create_store_id x = join ''_'' ws"
    by (simp only: create_store_id_def Let_def ws_def cl_def r_def r3_def r2_def r1_def)
  ultimately show ?thesis by blast
qed

text \<open>
  C8. \<open>_create_store_id\<close> is idempotent: applied to one of its own results it returns
  that result, for every input string. (As a function of its argument alone it is
  deterministic.)
\<close>

theorem slug_idempotent: "create_store_id (create_store_id x) = create_store_id x"
proof -
  obtain ws where "create_store_id x = join ''_'' ws" "\<forall>w\<in>set ws. slug_piece w"
    using slug_shape by blast
  then show ?thesis using slug_fixed by simp
qed

theorem slug_idempotent_witness:
  "create_store_id (create_store_id (''Trader Joe'' @ [CHR 0x27] @ ''s'')) = ''trader_joes'' \<and>
   create_store_id (''Trader Joe'' @ [CHR 0x27] @ ''s'') = ''trader_joes''"
proof -
  have h: "create_store_id (''Trader Joe'' @ [CHR 0x27] @ ''s'') = ''trader_joes''"
    by code_simp
  show ?thesis using h slug_idempotent [of "''Trader Joe'' @ [CHR 0x27] @ ''s''"] by simp
qed

section \<open>Properties of the aggregation\<close>

subsection \<open>The dict of groups\<close>

lemma map_of_update_entries:
  "map_of (map (\<lambda>(k, g). if k = key then (k, f g) else (k, g)) d) k' =
     (if k' = key then map_option f (map_of d k') else map_of d k')"
  by (induction d) auto

lemma map_fst_update_entries:
  "map fst (map (\<lambda>(k, g). if k = key then (k, f g) else (k, g)) d) = map fst d"
  by (induction d) auto

lemma distinct_add_offer:
  assumes "distinct (map fst d)"
  shows "distinct (map fst (add_offer d ofr))"
proof -
  have "map_of d (gkey ofr) = None \<Longrightarrow> gkey ofr \<notin> fst ` set d"
    by (simp add: map_of_eq_None_iff)
  then show ?thesis using assms
    unfolding add_offer_def Let_def map_fst_update_entries by auto
qed

lemma map_of_add_offer:
  "map_of (add_offer d ofr) k =
     (if k = gkey ofr
      then Some ((case map_of d k of None \<Rightarrow> new_group ofr | Some g \<Rightarrow> g)
                  \<lparr>offers := offers (case map_of d k of None \<Rightarrow> new_group ofr | Some g \<Rightarrow> g) @
                             [to_group_offer ofr]\<rparr>)
      else map_of d k)"
  unfolding add_offer_def Let_def map_of_update_entries
  by (auto simp: map_add_def split: option.splits)

lemma distinct_group_offers:
  "distinct (map fst d) \<Longrightarrow> distinct (map fst (group_offers d os))"
  by (induction os arbitrary: d) (simp_all add: distinct_add_offer)

lemma map_of_group_offers:
  "map_of (group_offers d os) k =
     (case map_of d k of
        Some g0 \<Rightarrow> Some (g0\<lparr>offers := offers g0 @ map to_group_offer (filter (\<lambda>x. gkey x = k) os)\<rparr>)
      | None \<Rightarrow>
          (case find (\<lambda>x. gkey x = k) os of
             None \<Rightarrow> None
           | Some ofr \<Rightarrow>
               Some ((new_group ofr)\<lparr>offers := map to_group_offer (filter (\<lambda>x. gkey x = k) os)\<rparr>)))"
proof (induction os arbitrary: d)
  case Nil
  then show ?case by (simp split: option.splits)
next
  case (Cons ofr os)
  have ng: "offers (new_group ofr) = []" by (simp add: new_group_def)
  show ?case
    unfolding group_offers.simps Cons.IH map_of_add_offer
    by (cases "map_of d k") (auto simp: ng split: option.splits)
qed


lemma group_offers_member:
  assumes "ofr \<in> set os"
  shows "\<exists>g\<in>set (map snd (group_offers [] os)).
           offers g = map to_group_offer (filter (\<lambda>x. gkey x = gkey ofr) os)"
proof -
  obtain first where f: "find (\<lambda>x. gkey x = gkey ofr) os = Some first"
    using assms by (cases "find (\<lambda>x. gkey x = gkey ofr) os") (auto simp: find_None_iff)
  have "map_of (group_offers [] os) (gkey ofr) =
          Some ((new_group first)\<lparr>offers := map to_group_offer (filter (\<lambda>x. gkey x = gkey ofr) os)\<rparr>)"
    unfolding map_of_group_offers using f by simp
  then have "(gkey ofr, (new_group first)\<lparr>offers := map to_group_offer (filter (\<lambda>x. gkey x = gkey ofr) os)\<rparr>)
               \<in> set (group_offers [] os)"
    by (rule map_of_SomeD)
  then show ?thesis by force
qed

lemma group_offers_same_group:
  assumes "o1 \<in> set os" and "o2 \<in> set os" and "gkey o1 = gkey o2"
  shows "\<exists>g\<in>set (map snd (group_offers [] os)).
           to_group_offer o1 \<in> set (offers g) \<and> to_group_offer o2 \<in> set (offers g)"
proof -
  obtain g where g: "g \<in> set (map snd (group_offers [] os))"
    "offers g = map to_group_offer (filter (\<lambda>x. gkey x = gkey o1) os)"
    using group_offers_member [OF assms(1)] by blast
  have "to_group_offer o1 \<in> set (offers g)" "to_group_offer o2 \<in> set (offers g)"
    unfolding g(2) using assms by auto
  with g(1) show ?thesis by blast
qed

lemma group_offers_first_seen:
  assumes "g \<in> set (map snd (group_offers [] os))"
  shows "\<exists>ofr. ofr \<in> set os \<and> find (\<lambda>x. gkey x = gkey ofr) os = Some ofr \<and>
           canonical_product g = canonical_product (new_group ofr) \<and>
           offers g = map to_group_offer (filter (\<lambda>x. gkey x = gkey ofr) os)"
proof -
  obtain k where k: "(k, g) \<in> set (group_offers [] os)" using assms by auto
  have "distinct (map fst (group_offers [] os))" by (rule distinct_group_offers) simp
  then have "map_of (group_offers [] os) k = Some g" using k by simp
  then obtain ofr where ofr: "find (\<lambda>x. gkey x = k) os = Some ofr"
    "g = (new_group ofr)\<lparr>offers := map to_group_offer (filter (\<lambda>x. gkey x = k) os)\<rparr>"
    unfolding map_of_group_offers by (auto split: option.splits)
  from ofr(1) have kk: "gkey ofr = k" "ofr \<in> set os"
    by (auto simp: find_Some_iff)
  show ?thesis using ofr kk by auto
qed

subsection \<open>The endpoint and the loop over the results\<close>

lemma aggregate_miss:
  assumes "aggregate_products e query zipcode stores enhance = (Inr (resp, info), tr)"
    and "\<not> hit info" and "nearby_stores e zipcode = Inr nearby"
  shows "resp = build_response query zipcode (considered_store_ids stores nearby)
                  (fst (fan_out e query zipcode enhance (considered_store_ids stores nearby)))"
  using assms unfolding aggregate_products_def Let_def
  by (auto split: if_splits sum.splits option.splits)

lemma aggregate_fresh:
  assumes "valid_zipcode zipcode" and "nearby_stores e zipcode = Inr nearby"
    and "fst (get_json e (products_key (sha1_hex e) zipcode query (considered_store_ids stores nearby) enhance)) = Inr None"
    and "fan_out_raised e query zipcode enhance (considered_store_ids stores nearby) = None"
  shows "fst (aggregate_products e query zipcode stores enhance) =
           (case fst (set_json e (products_key (sha1_hex e) zipcode query (considered_store_ids stores nearby) enhance)
                        (build_response query zipcode (considered_store_ids stores nearby)
                           (fst (fan_out e query zipcode enhance (considered_store_ids stores nearby))))
                        (60 * 60 * 4)) of
              Some x \<Rightarrow> Inl (internal_error x)
            | None \<Rightarrow> Inr (build_response query zipcode (considered_store_ids stores nearby)
                             (fst (fan_out e query zipcode enhance (considered_store_ids stores nearby))),
                           \<lparr>hit = False, near_stale = None\<rparr>))"
  using assms unfolding aggregate_products_def Let_def
  by (auto split: option.splits)

lemma store_offers_raises:
  "store_offers e query idx store_id res = Inl x \<Longrightarrow> res = Cancelled"
  by (auto simp: store_offers_def split: task_result.splits if_splits)

lemma store_offers_nonempty:
  assumes "store_offers e query idx store_id res = Inr (os, calls)" and "os \<noteq> []"
  shows "\<exists>products. res = Returned products"
  using assms by (auto simp: store_offers_def split: task_result.splits if_splits)

lemma offers_loop_mono:
  "set (fst st) \<subseteq> set (fst (fst (offers_loop e query zipcode enhance st xs)))"
proof (induction xs arbitrary: st)
  case Nil
  then show ?case by simp
next
  case (Cons p xs)
  obtain idx store_id where p: "p = (idx, store_id)" by (cases p)
  show ?case
  proof (cases "store_offers e query idx store_id
                  (search_products e idx query (to_store_name (str_title e) store_id) zipcode enhance)")
    case (Inl x)
    then show ?thesis by (simp add: p)
  next
    case (Inr r)
    obtain os calls where r: "r = (os, calls)" by (cases r)
    show ?thesis using Cons.IH [of "(fst st @ os, snd st @ calls)"] Inr
      by (auto simp: p r)
  qed
qed

lemma offers_loop_returns:
  assumes "\<forall>(idx, store_id)\<in>set xs.
             search_products e idx query (to_store_name (str_title e) store_id) zipcode enhance
               \<noteq> Cancelled"
  shows "snd (offers_loop e query zipcode enhance st xs) = None"
  using assms
proof (induction xs arbitrary: st)
  case Nil
  then show ?case by simp
next
  case (Cons p xs)
  obtain idx store_id where p: "p = (idx, store_id)" by (cases p)
  show ?case
  proof (cases "store_offers e query idx store_id
                  (search_products e idx query (to_store_name (str_title e) store_id) zipcode enhance)")
    case (Inl x)
    then show ?thesis using Cons.prems store_offers_raises [OF Inl] by (simp add: p)
  next
    case (Inr r)
    obtain os calls where r: "r = (os, calls)" by (cases r)
    show ?thesis using Cons.IH [of "(fst st @ os, snd st @ calls)"] Cons.prems Inr
      by (simp add: p r)
  qed
qed

lemma offers_loop_contains:
  assumes "snd (offers_loop e query zipcode enhance st xs) = None" and "(idx, store_id) \<in> set xs"
  shows "\<exists>os calls.
           store_offers e query idx store_id
             (search_products e idx query (to_store_name (str_title e) store_id) zipcode enhance) =
             Inr (os, calls) \<and>
           set os \<subseteq> set (fst (fst (offers_loop e query zipcode enhance st xs)))"
  using assms
proof (induction xs arbitrary: st)
  case Nil
  then show ?case by simp
next
  case (Cons p xs)
  obtain i sid where p: "p = (i, sid)" by (cases p)
  show ?case
  proof (cases "store_offers e query i sid
                  (search_products e i query (to_store_name (str_title e) sid) zipcode enhance)")
    case (Inl x)
    then show ?thesis using Cons.prems(1) by (simp add: p)
  next
    case (Inr r)
    obtain os calls where r: "r = (os, calls)" by (cases r)
    have step: "offers_loop e query zipcode enhance st (p # xs) =
                offers_loop e query zipcode enhance (fst st @ os, snd st @ calls) xs"
      using Inr by (simp add: p r)
    show ?thesis
    proof (cases "(idx, store_id) = (i, sid)")
      case True
      have "set os \<subseteq> set (fst (fst (offers_loop e query zipcode enhance
                                        (fst st @ os, snd st @ calls) xs)))"
        using offers_loop_mono [of "(fst st @ os, snd st @ calls)" e query zipcode enhance xs]
        by auto
      then show ?thesis using True Inr unfolding step by (auto simp: r)
    next
      case False
      then have "(idx, store_id) \<in> set xs" using Cons.prems(2) by (auto simp: p)
      moreover have "snd (offers_loop e query zipcode enhance (fst st @ os, snd st @ calls) xs) = None"
        using Cons.prems(1) unfolding step .
      ultimately show ?thesis unfolding step by (rule Cons.IH [rotated])
    qed
  qed
qed

lemma offers_loop_sources:
  assumes "x \<in> set (fst (fst (offers_loop e query zipcode enhance st xs)))"
  shows "x \<in> set (fst st) \<or>
         (\<exists>(idx, store_id)\<in>set xs. \<exists>os calls.
            store_offers e query idx store_id
              (search_products e idx query (to_store_name (str_title e) store_id) zipcode enhance) =
              Inr (os, calls) \<and> x \<in> set os)"
  using assms
proof (induction xs arbitrary: st)
  case Nil
  then show ?case by simp
next
  case (Cons p xs)
  obtain i sid where p: "p = (i, sid)" by (cases p)
  show ?case
  proof (cases "store_offers e query i sid
                  (search_products e i query (to_store_name (str_title e) sid) zipcode enhance)")
    case (Inl y)
    then show ?thesis using Cons.prems by (simp add: p)
  next
    case (Inr r)
    obtain os calls where r: "r = (os, calls)" by (cases r)
    have "x \<in> set (fst (fst (offers_loop e query zipcode enhance (fst st @ os, snd st @ calls) xs)))"
      using Cons.prems Inr by (simp add: p r)
    from Cons.IH [OF this] show ?thesis using Inr by (auto simp: p r)
  qed
qed

lemma in_zip_upt: "(idx, x) \<in> set (zip [0..<length xs] xs) \<longleftrightarrow> idx < length xs \<and> x = xs ! idx"
proof
  assume "(idx, x) \<in> set (zip [0..<length xs] xs)"
  then show "idx < length xs \<and> x = xs ! idx" by (auto simp: set_zip)
next
  assume a: "idx < length xs \<and> x = xs ! idx"
  then have "idx = [0..<length xs] ! idx \<and> x = xs ! idx \<and> idx < length xs" by simp
  then show "(idx, x) \<in> set (zip [0..<length xs] xs)"
    unfolding set_zip by (auto intro!: exI [of _ idx])
qed

subsection \<open>Grouping\<close>

text \<open>
  C1. In a run that computes its result (no cache hit), two offers of \<open>all_offers\<close>,
  from whatever store and whether built from a Sonar product or from a Serper row, whose
  normalised brand, name and size are equal are attached to one and the same entry of the
  results of the response.
\<close>

theorem equal_triple_same_group:
  assumes "aggregate_products e query zipcode stores enhance = (Inr (resp, info), tr)"
    and "\<not> hit info"
    and "nearby_stores e zipcode = Inr nearby"
    and "o1 \<in> set (fst (fan_out e query zipcode enhance (considered_store_ids stores nearby)))"
    and "o2 \<in> set (fst (fan_out e query zipcode enhance (considered_store_ids stores nearby)))"
    and "norm_text (o_brand o1) = norm_text (o_brand o2)"
    and "norm_name (o_name o1) = norm_name (o_name o2)"
    and "norm_size (o_size o1) = norm_size (o_size o2)"
  shows "\<exists>g\<in>set (r_results resp).
           to_group_offer o1 \<in> set (offers g) \<and> to_group_offer o2 \<in> set (offers g)"
proof -
  have k: "gkey o1 = gkey o2" using assms(6-8) by (simp add: gkey_def)
  have "r_results resp =
          map snd (group_offers []
            (fst (fan_out e query zipcode enhance (considered_store_ids stores nearby))))"
    using aggregate_miss [OF assms(1-3)] by (simp add: build_response_def)
  then show ?thesis using group_offers_same_group [OF assms(4,5) k] by simp
qed

theorem equal_triple_same_group_witness:
  "\<exists>g. g \<in> set (r_results
            \<lparr>r_query = ''oat milk'', r_zipcode = ''60622'',
             r_stores_considered = [''target'', ''aldi'', ''walmart''],
             r_results =
               [\<lparr>canonical_product =
                   \<lparr>c_name = Some ''Oat Milk'', c_brand = None, c_size = None,
                    c_images = [''http://a/1.png'']\<rparr>,
                  offers =
                    [to_group_offer (sonar_offer ''target'' ''Target''
                       (named_product ''Oat Milk'' ''http://a/1.png'')),
                     to_group_offer (serper_offer ''walmart'' ''Walmart''
                       (named_product ''oat milk'' ''http://w/2.png''))]\<rparr>],
             r_source = ''aggregate(sonar)''\<rparr>) \<and>
        to_group_offer (sonar_offer ''target'' ''Target''
          (named_product ''Oat Milk'' ''http://a/1.png'')) \<in> set (offers g) \<and>
        to_group_offer (serper_offer ''walmart'' ''Walmart''
          (named_product ''oat milk'' ''http://w/2.png'')) \<in> set (offers g)"
proof -
  let ?e = "example_env
              (\<lambda>idx. if idx = 1 then Raised (Exception ''TimeoutError'')
                      else if idx = 0 then Returned [named_product ''Oat Milk'' ''http://a/1.png'']
                      else Returned [])
              (\<lambda>idx. Inr [named_product ''oat milk'' ''http://w/2.png'']) False None"
  let ?o1 = "sonar_offer ''target'' ''Target'' (named_product ''Oat Milk'' ''http://a/1.png'')"
  let ?o2 = "serper_offer ''walmart'' ''Walmart'' (named_product ''oat milk'' ''http://w/2.png'')"
  have run: "aggregate_products ?e ''oat milk'' ''60622'' (Some ''target,aldi,walmart'') False =
      (Inr (\<lparr>r_query = ''oat milk'', r_zipcode = ''60622'',
             r_stores_considered = [''target'', ''aldi'', ''walmart''],
             r_results =
               [\<lparr>canonical_product =
                   \<lparr>c_name = Some ''Oat Milk'', c_brand = None, c_size = None,
                    c_images = [''http://a/1.png'']\<rparr>,
                  offers = [to_group_offer ?o1, to_group_offer ?o2]\<rparr>],
             r_source = ''aggregate(sonar)''\<rparr>,
            \<lparr>hit = False, near_stale = None\<rparr>),
       [GetNearbyStores ''60622'',
        SearchProducts 0 ''oat milk'' ''Target'' ''60622'' False,
        SearchProducts 1 ''oat milk'' ''Aldi'' ''60622'' False,
        SearchProducts 2 ''oat milk'' ''Walmart'' ''60622'' False,
        SearchShopping 2 ''oat milk'' ''Walmart''])"
    by code_simp
  have miss: "\<not> hit \<lparr>hit = False, near_stale = None\<rparr>" by simp
  have near: "nearby_stores ?e ''60622'' = Inr [''target'', ''aldi'']"
    by (simp add: example_env_def)
  have all: "fst (fan_out ?e ''oat milk'' ''60622'' False
               (considered_store_ids (Some ''target,aldi,walmart'') [''target'', ''aldi''])) =
             [?o1, ?o2]"
    by code_simp
  have m1: "?o1 \<in> set (fst (fan_out ?e ''oat milk'' ''60622'' False
               (considered_store_ids (Some ''target,aldi,walmart'') [''target'', ''aldi''])))"
    unfolding all by simp
  have m2: "?o2 \<in> set (fst (fan_out ?e ''oat milk'' ''60622'' False
               (considered_store_ids (Some ''target,aldi,walmart'') [''target'', ''aldi''])))"
    unfolding all by simp
  have b: "norm_text (o_brand ?o1) = norm_text (o_brand ?o2)" by code_simp
  have n: "norm_name (o_name ?o1) = norm_name (o_name ?o2)" by code_simp
  have s: "norm_size (o_size ?o1) = norm_size (o_size ?o2)" by code_simp
  show ?thesis
    using equal_triple_same_group [OF run miss near m1 m2 b n s] by blast
qed

text \<open>
  C2, as stated, fails: two Sonar products of one store with the same normalised key
  and different image URLs give one entry whose \<open>images\<close> holds the first URL only.
\<close>

theorem images_counterexample:
  "fst (aggregate_products
          (example_env
             (\<lambda>idx. Returned [named_product ''Oat Milk'' ''http://a/1.png'',
                          named_product ''oat-milk'' ''http://a/2.png''])
             (\<lambda>idx. Inr []) False None)
          ''oat milk'' ''60622'' (Some ''target'') False) =
     Inr (\<lparr>r_query = ''oat milk'', r_zipcode = ''60622'', r_stores_considered = [''target''],
           r_results =
             [\<lparr>canonical_product =
                 \<lparr>c_name = Some ''Oat Milk'', c_brand = None, c_size = None,
                  c_images = [''http://a/1.png'']\<rparr>,
                offers =
                  [to_group_offer (sonar_offer ''target'' ''Target''
                     (named_product ''Oat Milk'' ''http://a/1.png'')),
                   to_group_offer (sonar_offer ''target'' ''Target''
                     (named_product ''oat-milk'' ''http://a/2.png''))]\<rparr>],
           r_source = ''aggregate(sonar)''\<rparr>,
          \<lparr>hit = False, near_stale = None\<rparr>)"
  by code_simp

text \<open>
  C2, amended. For every entry of the results of a computed response there is a
  first-seen offer, the first offer of \<open>all_offers\<close> with the entry's key: it supplies
  the name, the brand and the size, and \<open>images\<close> is its image URL alone when that is
  set and non-empty, and empty otherwise. The entry's offers are the offers with that key,
  in order.
\<close>

theorem first_seen_supplies_canonical:
  assumes "aggregate_products e query zipcode stores enhance = (Inr (resp, info), tr)"
    and "\<not> hit info"
    and "nearby_stores e zipcode = Inr nearby"
    and "g \<in> set (r_results resp)"
  shows "\<exists>ofr.
           find (\<lambda>x. gkey x = gkey ofr)
             (fst (fan_out e query zipcode enhance (considered_store_ids stores nearby))) = Some ofr \<and>
           c_name (canonical_product g) = o_name ofr \<and>
           c_brand (canonical_product g) = o_brand ofr \<and>
           c_size (canonical_product g) = o_size ofr \<and>
           c_images (canonical_product g) =
             (case o_image_url ofr of None \<Rightarrow> [] | Some u \<Rightarrow> if u \<noteq> [] then [u] else []) \<and>
           offers g = map to_group_offer (filter (\<lambda>x. gkey x = gkey ofr)
             (fst (fan_out e query zipcode enhance (considered_store_ids stores nearby))))"
proof -
  have "r_results resp =
          map snd (group_offers []
            (fst (fan_out e query zipcode enhance (considered_store_ids stores nearby))))"
    using aggregate_miss [OF assms(1-3)] by (simp add: build_response_def)
  then have "g \<in> set (map snd (group_offers []
            (fst (fan_out e query zipcode enhance (considered_store_ids stores nearby)))))"
    using assms(4) by simp
  from group_offers_first_seen [OF this] show ?thesis
    by (auto simp: new_group_def)
qed

theorem first_seen_supplies_canonical_witness:
  "\<exists>ofr.
     find (\<lambda>x. gkey x = gkey ofr)
       [sonar_offer ''target'' ''Target'' (named_product ''Oat Milk'' ''http://a/1.png''),
        sonar_offer ''target'' ''Target'' (named_product ''oat-milk'' ''http://a/2.png'')] = Some ofr \<and>
     Some ''Oat Milk'' = o_name ofr \<and>
     [''http://a/1.png''] =
       (case o_image_url ofr of None \<Rightarrow> [] | Some u \<Rightarrow> if u \<noteq> [] then [u] else [])"
proof -
  let ?e = "example_env
              (\<lambda>idx. Returned [named_product ''Oat Milk'' ''http://a/1.png'',
                           named_product ''oat-milk'' ''http://a/2.png''])
              (\<lambda>idx. Inr []) False None"
  let ?o1 = "sonar_offer ''target'' ''Target'' (named_product ''Oat Milk'' ''http://a/1.png'')"
  let ?o2 = "sonar_offer ''target'' ''Target'' (named_product ''oat-milk'' ''http://a/2.png'')"
  let ?g = "\<lparr>canonical_product =
               \<lparr>c_name = Some ''Oat Milk'', c_brand = None, c_size = None,
                c_images = [''http://a/1.png'']\<rparr>,
             offers = [to_group_offer ?o1, to_group_offer ?o2]\<rparr>"
  have run: "aggregate_products ?e ''oat milk'' ''60622'' (Some ''target'') False =
      (Inr (\<lparr>r_query = ''oat milk'', r_zipcode = ''60622'', r_stores_considered = [''target''],
             r_results = [?g], r_source = ''aggregate(sonar)''\<rparr>,
            \<lparr>hit = False, near_stale = None\<rparr>),
       [GetNearbyStores ''60622'', SearchProducts 0 ''oat milk'' ''Target'' ''60622'' False])"
    by code_simp
  have miss: "\<not> hit \<lparr>hit = False, near_stale = None\<rparr>" by simp
  have near: "nearby_stores ?e ''60622'' = Inr [''target'', ''aldi'']"
    by (simp add: example_env_def)
  have all: "fst (fan_out ?e ''oat milk'' ''60622'' False
               (considered_store_ids (Some ''target'') [''target'', ''aldi''])) = [?o1, ?o2]"
    by code_simp
  have mem: "?g \<in> set (r_results
               \<lparr>r_query = ''oat milk'', r_zipcode = ''60622'', r_stores_considered = [''target''],
                r_results = [?g], r_source = ''aggregate(sonar)''\<rparr>)"
    by simp
  obtain ofr where ofr:
    "find (\<lambda>x. gkey x = gkey ofr)
       (fst (fan_out ?e ''oat milk'' ''60622'' False
               (considered_store_ids (Some ''target'') [''target'', ''aldi'']))) = Some ofr"
    "c_name (canonical_product ?g) = o_name ofr"
    "c_images (canonical_product ?g) =
       (case o_image_url ofr of None \<Rightarrow> [] | Some u \<Rightarrow> if u \<noteq> [] then [u] else [])"
    using first_seen_supplies_canonical [OF run miss near mem] by blast
  have "find (\<lambda>x. gkey x = gkey ofr) [?o1, ?o2] = Some ofr"
    using ofr(1) unfolding all .
  moreover have "Some ''Oat Milk'' = o_name ofr" using ofr(2) by simp
  moreover have "[''http://a/1.png''] =
       (case o_image_url ofr of None \<Rightarrow> [] | Some u \<Rightarrow> if u \<noteq> [] then [u] else [])"
    using ofr(3) by simp
  ultimately show ?thesis by blast
qed

subsection \<open>Failures of the collaborators\<close>

text \<open>
  What the fan-out gives whenever the rest of the call returns. For a valid request whose
  store lookup returns, whose cache read misses, none of whose tasks is cancelled and
  whose cache write returns, the call returns a response, whatever tasks raise or time
  out and whatever the Serper calls do. Every product of a store whose task returned has
  its offer in an entry of the results, and every offer of every entry comes from a store
  whose task returned: a store whose task raised or timed out contributes nothing.
\<close>

lemma partial_failures_tolerated:
  assumes "valid_zipcode zipcode"
    and "nearby_stores e zipcode = Inr nearby"
    and "fst (get_json e (products_key (sha1_hex e) zipcode query
                 (considered_store_ids stores nearby) enhance)) = Inr None"
    and "\<forall>idx<length (considered_store_ids stores nearby).
           search_products e idx query
             (to_store_name (str_title e) (considered_store_ids stores nearby ! idx)) zipcode enhance
           \<noteq> Cancelled"
    and "fst (set_json e (products_key (sha1_hex e) zipcode query
                 (considered_store_ids stores nearby) enhance)
               (build_response query zipcode (considered_store_ids stores nearby)
                  (fst (fan_out e query zipcode enhance (considered_store_ids stores nearby))))
               (60 * 60 * 4)) = None"
  shows "\<exists>resp. fst (aggregate_products e query zipcode stores enhance) =
                  Inr (resp, \<lparr>hit = False, near_stale = None\<rparr>) \<and>
          (\<forall>idx<length (considered_store_ids stores nearby). \<forall>products.
             search_products e idx query
               (to_store_name (str_title e) (considered_store_ids stores nearby ! idx))
               zipcode enhance = Returned products \<longrightarrow>
             (\<forall>p\<in>set products. \<exists>g\<in>set (r_results resp).
                to_group_offer (sonar_offer (considered_store_ids stores nearby ! idx)
                  (to_store_name (str_title e) (considered_store_ids stores nearby ! idx)) p)
                \<in> set (offers g))) \<and>
          (\<forall>g\<in>set (r_results resp). \<forall>x\<in>set (offers g).
             \<exists>idx<length (considered_store_ids stores nearby). \<exists>products os calls.
               search_products e idx query
                 (to_store_name (str_title e) (considered_store_ids stores nearby ! idx))
                 zipcode enhance = Returned products \<and>
               store_offers e query idx (considered_store_ids stores nearby ! idx)
                 (Returned products) = Inr (os, calls) \<and>
               x \<in> to_group_offer ` set os)"
proof -
  let ?c = "considered_store_ids stores nearby"
  let ?zs = "zip [0..<length ?c] ?c"
  let ?all = "fst (fan_out e query zipcode enhance ?c)"
  let ?resp = "build_response query zipcode ?c ?all"
  have all: "?all = fst (fst (offers_loop e query zipcode enhance ([], []) ?zs))"
    by (simp add: fan_out_def Let_def)
  have "\<forall>(idx, store_id)\<in>set ?zs.
          search_products e idx query (to_store_name (str_title e) store_id) zipcode enhance
            \<noteq> Cancelled"
    using assms(4) by (auto simp: in_zip_upt)
  then have ok: "snd (offers_loop e query zipcode enhance ([], []) ?zs) = None"
    by (rule offers_loop_returns)
  then have "fan_out_raised e query zipcode enhance ?c = None"
    by (simp add: fan_out_raised_def)
  from aggregate_fresh [OF assms(1-3) this] assms(5)
  have res: "fst (aggregate_products e query zipcode stores enhance) =
               Inr (?resp, \<lparr>hit = False, near_stale = None\<rparr>)"
    by simp
  have grp: "r_results ?resp = map snd (group_offers [] ?all)"
    by (simp add: build_response_def)
  have present: "\<exists>g\<in>set (r_results ?resp).
            to_group_offer (sonar_offer (?c ! idx) (to_store_name (str_title e) (?c ! idx)) p)
              \<in> set (offers g)"
    if idx: "idx < length ?c"
      and ret: "search_products e idx query (to_store_name (str_title e) (?c ! idx)) zipcode enhance
                  = Returned products"
      and p: "p \<in> set products"
    for idx products p
  proof -
    have "(idx, ?c ! idx) \<in> set ?zs" using idx by (simp add: in_zip_upt)
    from offers_loop_contains [OF ok this] obtain os calls where
      so: "store_offers e query idx (?c ! idx) (Returned products) = Inr (os, calls)"
      and sub: "set os \<subseteq> set ?all"
      unfolding all ret by blast
    have "products \<noteq> []" using p by auto
    then have "os = map (sonar_offer (?c ! idx) (to_store_name (str_title e) (?c ! idx))) products"
      using so by (simp add: store_offers_def)
    then have "sonar_offer (?c ! idx) (to_store_name (str_title e) (?c ! idx)) p \<in> set ?all"
      using sub p by auto
    from group_offers_same_group [OF this this] show ?thesis
      unfolding grp by blast
  qed
  have origin: "\<exists>idx<length ?c. \<exists>products os calls.
            search_products e idx query (to_store_name (str_title e) (?c ! idx)) zipcode enhance
              = Returned products \<and>
            store_offers e query idx (?c ! idx) (Returned products) = Inr (os, calls) \<and>
            x \<in> to_group_offer ` set os"
    if g: "g \<in> set (r_results ?resp)" and x: "x \<in> set (offers g)" for g x
  proof -
    have "g \<in> set (map snd (group_offers [] ?all))" using g unfolding grp .
    from group_offers_first_seen [OF this] obtain ofr where
      "offers g = map to_group_offer (filter (\<lambda>y. gkey y = gkey ofr) ?all)"
      by blast
    then obtain y where y: "y \<in> set ?all" "x = to_group_offer y" using x by auto
    from offers_loop_sources [OF y(1) [unfolded all]] obtain idx store_id os calls where
      z: "(idx, store_id) \<in> set ?zs"
      and so: "store_offers e query idx store_id
                 (search_products e idx query (to_store_name (str_title e) store_id) zipcode enhance)
               = Inr (os, calls)"
      and yo: "y \<in> set os"
      by auto
    from z have idx: "idx < length ?c" and sid: "store_id = ?c ! idx"
      by (simp_all add: in_zip_upt)
    have "os \<noteq> []" using yo by auto
    from store_offers_nonempty [OF so this] obtain products where
      ret: "search_products e idx query (to_store_name (str_title e) store_id) zipcode enhance
              = Returned products"
      by blast
    show ?thesis using idx so yo y(2) ret unfolding sid by auto
  qed
  from res present origin show ?thesis by blast
qed

text \<open>
  What the caller receives at the cache write, for every request that reaches it: the
  HTTP 500 of the generic handler when the set operation of a configured backend
  raises, the computed response when it returns or no backend is configured.
\<close>

lemma cache_write_outcome:
  assumes "valid_zipcode zipcode"
    and "nearby_stores e zipcode = Inr nearby"
    and "fst (get_json e (products_key (sha1_hex e) zipcode query
                 (considered_store_ids stores nearby) enhance)) = Inr None"
    and "fan_out_raised e query zipcode enhance (considered_store_ids stores nearby) = None"
  shows "(\<forall>msg. cache_client e \<and>
            redis_set e (products_key (sha1_hex e) zipcode query
                 (considered_store_ids stores nearby) enhance)
               (build_response query zipcode (considered_store_ids stores nearby)
                  (fst (fan_out e query zipcode enhance (considered_store_ids stores nearby))))
               (60 * 60 * 4) = Some (Exception msg) \<longrightarrow>
            fst (aggregate_products e query zipcode stores enhance) =
              Inl (HTTPException 500 msg)) \<and>
         (\<not> cache_client e \<or>
            redis_set e (products_key (sha1_hex e) zipcode query
                 (considered_store_ids stores nearby) enhance)
               (build_response query zipcode (considered_store_ids stores nearby)
                  (fst (fan_out e query zipcode enhance (considered_store_ids stores nearby))))
               (60 * 60 * 4) = None \<longrightarrow>
            fst (aggregate_products e query zipcode stores enhance) =
              Inr (build_response query zipcode (considered_store_ids stores nearby)
                     (fst (fan_out e query zipcode enhance (considered_store_ids stores nearby))),
                   \<lparr>hit = False, near_stale = None\<rparr>))"
  unfolding aggregate_fresh [OF assms]
  by (auto simp: set_json_def internal_error_def)

text \<open>
  C3 fails on the code. \<open>cache.set_json\<close> is awaited inside the \<open>try\<close> of
  \<open>aggregate_products\<close> with no handler of its own, so an exception of the cache write
  reaches \<open>except Exception\<close> and the caller gets an HTTP 500 instead of the computed
  result; the sibling endpoint \<open>get_sonar_stores\<close> of the same file does wrap its cache
  write in \<open>try ... except Exception: pass\<close>. The same request with a cache write that
  returns gets the result.
\<close>

theorem cache_write_failure_returns_500:
  "fst (aggregate_products
          (example_env (\<lambda>idx. Returned [named_product ''Oat Milk'' ''http://a/1.png''])
             (\<lambda>idx. Inr []) True (Some (Exception ''redis down'')))
          ''oat milk'' ''60622'' (Some ''target'') False) =
     Inl (HTTPException 500 ''redis down'') \<and>
   fst (aggregate_products
          (example_env (\<lambda>idx. Returned [named_product ''Oat Milk'' ''http://a/1.png''])
             (\<lambda>idx. Inr []) True None)
          ''oat milk'' ''60622'' (Some ''target'') False) =
     Inr (\<lparr>r_query = ''oat milk'', r_zipcode = ''60622'', r_stores_considered = [''target''],
           r_results =
             [\<lparr>canonical_product =
                 \<lparr>c_name = Some ''Oat Milk'', c_brand = None, c_size = None,
                  c_images = [''http://a/1.png'']\<rparr>,
                offers =
                  [to_group_offer (sonar_offer ''target'' ''Target''
                     (named_product ''Oat Milk'' ''http://a/1.png''))]\<rparr>],
           r_source = ''aggregate(sonar)''\<rparr>,
          \<lparr>hit = False, near_stale = None\<rparr>)"
  by code_simp

text \<open>
  C4 fails on the code, through the unguarded cache write. With three candidate stores
  of which one times out and two return a product, a cache write that raises turns the
  call into an HTTP 500: an error surfaces and the caller gets no offer. The same request
  with a cache write that returns gets the offers of the two other stores and none of the
  store that timed out.
\<close>

theorem partial_failure_surfaces_with_cache_write:
  "aggregate_products
     (example_env
        (\<lambda>idx. if idx = 1 then Raised (Exception ''TimeoutError'')
                else Returned [named_product ''Oat Milk'' ''http://a/1.png''])
        (\<lambda>idx. Inr []) True (Some (Exception ''redis down'')))
     ''oat milk'' ''60622'' (Some ''target,aldi,walmart'') False =
     (Inl (HTTPException 500 ''redis down''),
      [GetNearbyStores ''60622'',
       CacheGet ''products:zip:60622:q:oat milk:stores:aldi,target,walmart:enh:0'',
       SearchProducts 0 ''oat milk'' ''Target'' ''60622'' False,
       SearchProducts 1 ''oat milk'' ''Aldi'' ''60622'' False,
       SearchProducts 2 ''oat milk'' ''Walmart'' ''60622'' False,
       CacheSet ''products:zip:60622:q:oat milk:stores:aldi,target,walmart:enh:0'']) \<and>
   fst (aggregate_products
          (example_env
             (\<lambda>idx. if idx = 1 then Raised (Exception ''TimeoutError'')
                     else Returned [named_product ''Oat Milk'' ''http://a/1.png''])
             (\<lambda>idx. Inr []) True None)
          ''oat milk'' ''60622'' (Some ''target,aldi,walmart'') False) =
     Inr (\<lparr>r_query = ''oat milk'', r_zipcode = ''60622'',
           r_stores_considered = [''target'', ''aldi'', ''walmart''],
           r_results =
             [\<lparr>canonical_product =
                 \<lparr>c_name = Some ''Oat Milk'', c_brand = None, c_size = None,
                  c_images = [''http://a/1.png'']\<rparr>,
                offers =
                  [to_group_offer (sonar_offer ''target'' ''Target''
                     (named_product ''Oat Milk'' ''http://a/1.png'')),
                   to_group_offer (sonar_offer ''walmart'' ''Walmart''
                     (named_product ''Oat Milk'' ''http://a/1.png''))]\<rparr>],
           r_source = ''aggregate(sonar)''\<rparr>,
          \<lparr>hit = False, near_stale = None\<rparr>)"
  by code_simp

subsection \<open>Validation\<close>

text \<open>
  C6, as stated, fails for the query: the endpoint never tests it, so a request with an
  empty query and a valid ZIP code calls the store lookup, reads the cache, fans out and
  writes the cache.
\<close>

theorem empty_query_counterexample:
  "aggregate_products (example_env (\<lambda>idx. Returned []) (\<lambda>idx. Inr []) True None)
     [] ''60622'' None False =
     (Inr (\<lparr>r_query = [], r_zipcode = ''60622'', r_stores_considered = [''target'', ''aldi''],
            r_results = [], r_source = ''aggregate(sonar)''\<rparr>,
           \<lparr>hit = False, near_stale = None\<rparr>),
      [GetNearbyStores ''60622'',
       CacheGet ''products:zip:60622:q::stores:aldi,target:enh:0'',
       SearchProducts 0 [] ''Target'' ''60622'' False,
       SearchProducts 1 [] ''Aldi'' ''60622'' False,
       SearchShopping 0 [] ''Target'', SearchShopping 1 [] ''Aldi'',
       CacheSet ''products:zip:60622:q::stores:aldi,target:enh:0''])"
  by code_simp

text \<open>
  C6, amended. Every request whose ZIP code does not match \<open>^\d{5}$\<close> (five digits,
  after which Python's \<open>$\<close> admits one final newline) is rejected with HTTP 400 before
  any call: the trace is empty, so the cache is neither read nor written and neither the
  store lookup nor a source client is invoked. The query is not validated.
\<close>

theorem invalid_zipcode_rejected_before_io:
  assumes "\<not> valid_zipcode zipcode"
  shows "aggregate_products e query zipcode stores enhance =
           (Inl (HTTPException 400 ''Invalid zipcode format''), [])"
  using assms by (simp add: aggregate_products_def)

theorem invalid_zipcode_rejected_before_io_witness:
  "aggregate_products (example_env (\<lambda>idx. Returned []) (\<lambda>idx. Inr []) True None)
     ''oat milk'' ''6062A'' None False =
     (Inl (HTTPException 400 ''Invalid zipcode format''), [])"
proof -
  have "\<not> valid_zipcode ''6062A''" by code_simp
  then show ?thesis by (rule invalid_zipcode_rejected_before_io)
qed

end
